theory Spec2Isabelle
  imports Complex_Main
begin

section \<open>Numbers, exceptions and arrays\<close>

text \<open>
  The module \<^verbatim>\<open>PyDune/physics/turbulent_flow/andreotti2009.py\<close> computes with
  Python floats and NumPy complex arrays. Floating-point numbers are idealised here as
  the reals and the complex numbers: rounding is outside the model. What is not idealised
  is where an operation has no number to return:
  \<^item> on Python scalars a division by zero raises \<^verbatim>\<open>ZeroDivisionError\<close>;
  \<^item> on NumPy values a division by zero and the real square root of a negative number
    return \<^verbatim>\<open>inf\<close> or \<^verbatim>\<open>nan\<close> (with a warning, no exception). Both are the
    value \<open>None\<close> of \<open>cnum\<close>, and arithmetic with \<open>None\<close> gives \<open>None\<close>;
  \<^item> a shape mismatch raises \<^verbatim>\<open>ValueError\<close>, \<^verbatim>\<open>np.linalg.inv\<close> raises
    \<^verbatim>\<open>LinAlgError\<close>, \<^verbatim>\<open>complex\<close> of an array of several entries raises
    \<^verbatim>\<open>TypeError\<close>, and an index out of range raises \<^verbatim>\<open>IndexError\<close>.
  A raised exception is the left summand \<open>Inl\<close> of a result.
\<close>

datatype exn = ZeroDivisionError | ValueError | LinAlgError | TypeError | IndexError

type_synonym cnum = "complex option"

type_synonym 'a result = "exn + 'a"

text \<open>A real or complex argument that the caller passes as a scalar or as a 1-d array.\<close>

datatype 'a nd = Scalar 'a | Array "'a list"

text \<open>A state argument \<^verbatim>\<open>X\<close>: a 1-d array, or a 2-d array given by its rows.\<close>

datatype ndarray = Vec "complex list" | Mat "complex list list"

text \<open>Python's \<^verbatim>\<open>a / b\<close> on floats.\<close>

definition py_div :: "real \<Rightarrow> real \<Rightarrow> real result" where
  "py_div a b = (if b = 0 then Inl ZeroDivisionError else Inr (a / b))"

text \<open>\<^verbatim>\<open>np.sqrt\<close> on a real number: \<^verbatim>\<open>nan\<close> below zero.\<close>

definition np_sqrt :: "real \<Rightarrow> real option" where
  "np_sqrt r = (if r < 0 then None else Some (sqrt r))"

text \<open>
  The closure provider \<^verbatim>\<open>mu\<close>, \<^verbatim>\<open>mu_prime\<close> is imported from
  \<^verbatim>\<open>fourriere2010_unbounded\<close>: two real-valued functions of \<^verbatim>\<open>(eta, eta_0, Kappa)\<close>.
  Every definition below takes the pair as a parameter.
\<close>

record closure =
  mu :: "real \<Rightarrow> real \<Rightarrow> real \<Rightarrow> real"
  mu_prime :: "real \<Rightarrow> real \<Rightarrow> real \<Rightarrow> real"

section \<open>System matrix and forcing vectors\<close>

text \<open>
  \<^verbatim>\<open>_P(eta, eta_H, eta_0, Kappa)\<close>. The divisions, in the order the source evaluates
  them: \<^verbatim>\<open>eta/eta_H\<close>, \<^verbatim>\<open>mu_prime/(2*tp)\<close>, \<^verbatim>\<open>4*tp/mu_prime\<close>. The arguments
  are Python floats, so a division by zero raises; where \<^verbatim>\<open>solve_ivp\<close> passes a NumPy
  float for \<^verbatim>\<open>eta\<close>, the same division returns \<^verbatim>\<open>inf\<close> or \<^verbatim>\<open>nan\<close> with a warning,
  and in both cases the entry is not a number.
\<close>

definition P :: "closure \<Rightarrow> real \<Rightarrow> real \<Rightarrow> real \<Rightarrow> real \<Rightarrow> complex list list result" where
  "P cl eta eta_H eta_0 Kappa =
     (if eta_H = 0 then Inl ZeroDivisionError
      else let tp = 1 - eta / eta_H;
               m = mu cl eta eta_0 Kappa;
               m' = mu_prime cl eta eta_0 Kappa
           in if 2 * tp = 0 then Inl ZeroDivisionError
              else if m' = 0 then Inl ZeroDivisionError
              else Inr [[0, - \<i>, complex_of_real (m' / (2 * tp)), 0],
                        [- \<i>, 0, 0, 0],
                        [\<i> * complex_of_real m + complex_of_real (4 * tp / m'),
                           complex_of_real m', 0, \<i>],
                        [0, - \<i> * complex_of_real m, \<i>, 0]])"

text \<open>\<^verbatim>\<open>_S(eta, eta_H, eta_0, Kappa)\<close>.\<close>

definition S :: "closure \<Rightarrow> real \<Rightarrow> real \<Rightarrow> real \<Rightarrow> real \<Rightarrow> complex list result" where
  "S cl eta eta_H eta_0 Kappa =
     (let m' = mu_prime cl eta eta_0 Kappa
      in if 2 * eta_H = 0 then Inl ZeroDivisionError
         else Inr [complex_of_real (Kappa * m'\<^sup>2 - m' / (2 * eta_H)), 0, 0, 0])"

text \<open>\<^verbatim>\<open>_S_delta(eta, eta_H, eta_0, Kappa)\<close>.\<close>

definition S_delta :: "closure \<Rightarrow> real \<Rightarrow> real \<Rightarrow> real \<Rightarrow> real \<Rightarrow> complex list result" where
  "S_delta cl eta eta_H eta_0 Kappa =
     (if eta_H = 0 then Inl ZeroDivisionError
      else let tp = 1 - eta / eta_H;
               m' = mu_prime cl eta eta_0 Kappa
           in if 2 * eta_H\<^sup>2 * tp = 0 then Inl ZeroDivisionError
              else Inr [complex_of_real (- eta * m' / (2 * eta_H\<^sup>2 * tp)), 0, 0, 0])"

section \<open>Radiation condition\<close>

text \<open>
  \<^verbatim>\<open>np.piecewise(x, condlist, funclist)\<close> on a 1-d array (a scalar is a 0-d array and
  takes the same path with one entry): \<^verbatim>\<open>y = zeros_like(x)\<close>, then for each condition
  and function in turn \<^verbatim>\<open>vals = x[cond]\<close> and, when \<^verbatim>\<open>vals.size > 0\<close>,
  \<^verbatim>\<open>y[cond] = func(vals)\<close>.
\<close>

definition select :: "bool list \<Rightarrow> 'a list \<Rightarrow> 'a list" where
  "select cond xs = map snd (filter fst (zip cond xs))"

fun scatter :: "'a list \<Rightarrow> bool list \<Rightarrow> 'a list \<Rightarrow> 'a list" where
  "scatter (y # ys) (c # cs) (v # vs) =
     (if c then v # scatter ys cs vs else y # scatter ys cs (v # vs))"
| "scatter ys cs vs = ys"

text \<open>
  \<^verbatim>\<open>y[cond] = v\<close> with a boolean mask: \<^verbatim>\<open>v\<close> has one value for each selected entry,
  or a single value that is broadcast; any other length raises \<^verbatim>\<open>ValueError\<close>.
\<close>

definition mask_assign :: "'a list \<Rightarrow> bool list \<Rightarrow> 'a list \<Rightarrow> 'a list result" where
  "mask_assign y cond v =
     (let k = length (filter id cond)
      in if length v = k then Inr (scatter y cond v)
         else if length v = 1 then Inr (scatter y cond (replicate k (hd v)))
         else Inl ValueError)"

fun piecewise_loop ::
  "cnum list \<Rightarrow> complex list \<Rightarrow> (bool list \<times> (complex list \<Rightarrow> cnum list result)) list
     \<Rightarrow> cnum list result" where
  "piecewise_loop y x [] = Inr y"
| "piecewise_loop y x ((cond, func) # rest) =
     (let vals = select cond x
      in if length vals > 0
         then (case func vals of
                 Inl e \<Rightarrow> Inl e
               | Inr v \<Rightarrow> (case mask_assign y cond v of
                             Inl e \<Rightarrow> Inl e
                           | Inr y' \<Rightarrow> piecewise_loop y' x rest))
         else piecewise_loop y x rest)"

text \<open>\<^verbatim>\<open>_q1\<close> passes as many conditions as functions.\<close>

definition piecewise ::
  "complex list \<Rightarrow> bool list list \<Rightarrow> (complex list \<Rightarrow> cnum list result) list
     \<Rightarrow> cnum list result" where
  "piecewise x condlist funclist =
     piecewise_loop (replicate (length x) (Some 0)) x (zip condlist funclist)"

text \<open>
  The first function of \<^verbatim>\<open>_q1\<close>, \<^verbatim>\<open>lambda x: -np.sqrt(1 - 1/x**2)\<close>, on one entry of the
  complex array it is given.
\<close>

definition q1_decaying :: "complex \<Rightarrow> cnum" where
  "q1_decaying x = (if x\<^sup>2 = 0 then None else Some (- csqrt (1 - 1 / x\<^sup>2)))"

text \<open>
  The second function, \<^verbatim>\<open>lambda x: 1j*np.sqrt(1/eta_B**2 - 1)\<close>, does not use its
  argument: it computes from the whole of \<^verbatim>\<open>eta_B\<close>. On a Python scalar the division is
  Python's; on an array it is NumPy's, entry by entry.
\<close>

definition q1_propagating :: "real \<Rightarrow> cnum result" where
  "q1_propagating eta_B =
     (case py_div 1 (eta_B\<^sup>2) of
        Inl e \<Rightarrow> Inl e
      | Inr d \<Rightarrow> Inr (map_option (\<lambda>r. \<i> * complex_of_real r) (np_sqrt (d - 1))))"

definition q1_propagating_entry :: "real \<Rightarrow> cnum" where
  "q1_propagating_entry e =
     (if e\<^sup>2 = 0 then None
      else map_option (\<lambda>r. \<i> * complex_of_real r) (np_sqrt (1 / e\<^sup>2 - 1)))"

text \<open>\<^verbatim>\<open>_q1(eta_B)\<close>.\<close>

fun q1 :: "real nd \<Rightarrow> cnum nd result" where
  "q1 (Scalar eta_B) =
     (case piecewise [complex_of_real eta_B] [[eta_B > 1], [eta_B \<le> 1]]
             [\<lambda>x. Inr (map q1_decaying x),
              \<lambda>x. map_sum id (\<lambda>v. [v]) (q1_propagating eta_B)] of
        Inl e \<Rightarrow> Inl e
      | Inr y \<Rightarrow> Inr (Scalar (hd y)))"
| "q1 (Array eta_B) =
     (case piecewise (map complex_of_real eta_B)
             [map (\<lambda>e. e > 1) eta_B, map (\<lambda>e. e \<le> 1) eta_B]
             [\<lambda>x. Inr (map q1_decaying x),
              \<lambda>x. Inr (map q1_propagating_entry eta_B)] of
        Inl e \<Rightarrow> Inl e
      | Inr y \<Rightarrow> Inr (Array y))"

section \<open>Vector fields\<close>

definition vdot :: "complex list \<Rightarrow> complex list \<Rightarrow> complex" where
  "vdot p x = sum_list (map2 (*) p x)"

definition column :: "nat \<Rightarrow> 'a list list \<Rightarrow> 'a list" where
  "column j M = map (\<lambda>r. r ! j) M"

text \<open>\<^verbatim>\<open>X.shape[1]\<close> of a 2-d array given by its rows (there are four rows where it is read).\<close>

definition ncols :: "'a list list \<Rightarrow> nat" where
  "ncols M = (case M of [] \<Rightarrow> 0 | r # _ \<Rightarrow> length r)"

text \<open>\<^verbatim>\<open>Y[:, j]\<close>: column \<open>j\<close> of a 2-d array, as a 1-d array.\<close>

fun take_column :: "nat \<Rightarrow> ndarray \<Rightarrow> ndarray result" where
  "take_column j (Mat rows) =
     (if j < ncols rows then Inr (Vec (column j rows)) else Inl IndexError)"
| "take_column j (Vec v) = Inl IndexError"

text \<open>
  \<^verbatim>\<open>A.dot(X)\<close> for a 2-d \<^verbatim>\<open>A\<close>: the columns of \<^verbatim>\<open>A\<close> must be as many as the entries
  (rows) of \<^verbatim>\<open>X\<close>, or NumPy raises \<^verbatim>\<open>ValueError\<close>.
\<close>

fun dot :: "complex list list \<Rightarrow> ndarray \<Rightarrow> ndarray result" where
  "dot A (Vec x) =
     (if list_all (\<lambda>r. length r = length x) A
      then Inr (Vec (map (\<lambda>r. vdot r x) A))
      else Inl ValueError)"
| "dot A (Mat X) =
     (if list_all (\<lambda>r. length r = length X) A
      then Inr (Mat (map (\<lambda>r. map (\<lambda>j. vdot r (column j X)) [0..<ncols X]) A))
      else Inl ValueError)"

text \<open>\<^verbatim>\<open>np.tile(s, (n, 1))\<close>: \<open>n\<close> rows, each a copy of \<open>s\<close>.\<close>

definition tile :: "'a list \<Rightarrow> nat \<Rightarrow> 'a list list" where
  "tile s n = replicate n s"

text \<open>\<^verbatim>\<open>np.transpose\<close> of a 2-d array with \<open>c\<close> columns, given by its rows.\<close>

definition transpose2 :: "nat \<Rightarrow> 'a list list \<Rightarrow> 'a list list" where
  "transpose2 c M = map (\<lambda>i. column i M) [0..<c]"

text \<open>Sums of two arrays of the same shape.\<close>

definition vec_add :: "complex list \<Rightarrow> complex list \<Rightarrow> complex list" where
  "vec_add a b = map2 (+) a b"

definition mat_add :: "complex list list \<Rightarrow> complex list list \<Rightarrow> complex list list" where
  "mat_add a b = map2 vec_add a b"

text \<open>
  \<^verbatim>\<open>P.dot(X) + s\<close> for 1-d \<^verbatim>\<open>X\<close> and
  \<^verbatim>\<open>P.dot(X) + np.transpose(np.tile(s, (X.shape[1], 1)))\<close> otherwise. The product has the
  four rows of \<^verbatim>\<open>P\<close> and the forcing has four entries.
\<close>

fun add_forcing :: "ndarray \<Rightarrow> complex list \<Rightarrow> nat \<Rightarrow> ndarray" where
  "add_forcing (Vec y) s n = Vec (vec_add y s)"
| "add_forcing (Mat Y) s n = Mat (mat_add Y (transpose2 (length s) (tile s n)))"

text \<open>\<^verbatim>\<open>_func(eta, X, eta_H, eta_0, Kappa)\<close>; \<^verbatim>\<open>np.squeeze\<close> leaves a 1-d array as it is.\<close>

definition func :: "closure \<Rightarrow> real \<Rightarrow> ndarray \<Rightarrow> real \<Rightarrow> real \<Rightarrow> real \<Rightarrow> ndarray result" where
  "func cl eta X eta_H eta_0 Kappa =
     (case X of
        Vec x \<Rightarrow> (case P cl eta eta_H eta_0 Kappa of
                     Inl e \<Rightarrow> Inl e
                   | Inr A \<Rightarrow> dot A (Vec x))
      | Mat rows \<Rightarrow> (case P cl eta eta_H eta_0 Kappa of
                        Inl e \<Rightarrow> Inl e
                      | Inr A \<Rightarrow> dot A (Mat rows)))"

text \<open>\<^verbatim>\<open>_func1(eta, X, eta_H, eta_0, Kappa)\<close>: the left operand of \<^verbatim>\<open>+\<close> first.\<close>

definition func1 :: "closure \<Rightarrow> real \<Rightarrow> ndarray \<Rightarrow> real \<Rightarrow> real \<Rightarrow> real \<Rightarrow> ndarray result" where
  "func1 cl eta X eta_H eta_0 Kappa =
     (case X of
        Vec x \<Rightarrow>
          (case P cl eta eta_H eta_0 Kappa of
             Inl e \<Rightarrow> Inl e
           | Inr A \<Rightarrow>
               (case dot A (Vec x) of
                  Inl e \<Rightarrow> Inl e
                | Inr Y \<Rightarrow>
                    (case S cl eta eta_H eta_0 Kappa of
                       Inl e \<Rightarrow> Inl e
                     | Inr s \<Rightarrow> Inr (add_forcing Y s 1))))
      | Mat rows \<Rightarrow>
          (case P cl eta eta_H eta_0 Kappa of
             Inl e \<Rightarrow> Inl e
           | Inr A \<Rightarrow>
               (case dot A (Mat rows) of
                  Inl e \<Rightarrow> Inl e
                | Inr Y \<Rightarrow>
                    (case S cl eta eta_H eta_0 Kappa of
                       Inl e \<Rightarrow> Inl e
                     | Inr s \<Rightarrow> Inr (add_forcing Y s (ncols rows))))))"

text \<open>\<^verbatim>\<open>_func_delta(eta, X, eta_H, eta_0, Kappa)\<close>.\<close>

definition func_delta ::
  "closure \<Rightarrow> real \<Rightarrow> ndarray \<Rightarrow> real \<Rightarrow> real \<Rightarrow> real \<Rightarrow> ndarray result" where
  "func_delta cl eta X eta_H eta_0 Kappa =
     (case X of
        Vec x \<Rightarrow>
          (case P cl eta eta_H eta_0 Kappa of
             Inl e \<Rightarrow> Inl e
           | Inr A \<Rightarrow>
               (case dot A (Vec x) of
                  Inl e \<Rightarrow> Inl e
                | Inr Y \<Rightarrow>
                    (case S_delta cl eta eta_H eta_0 Kappa of
                       Inl e \<Rightarrow> Inl e
                     | Inr s \<Rightarrow> Inr (add_forcing Y s 1))))
      | Mat rows \<Rightarrow>
          (case P cl eta eta_H eta_0 Kappa of
             Inl e \<Rightarrow> Inl e
           | Inr A \<Rightarrow>
               (case dot A (Mat rows) of
                  Inl e \<Rightarrow> Inl e
                | Inr Y \<Rightarrow>
                    (case S_delta cl eta eta_H eta_0 Kappa of
                       Inl e \<Rightarrow> Inl e
                     | Inr s \<Rightarrow> Inr (add_forcing Y s (ncols rows))))))"

section \<open>Integration of the fundamental solutions\<close>

text \<open>
  \<^verbatim>\<open>solve_ivp\<close> is SciPy's integrator. It is a parameter of the model: a function from
  the problem it is called with (the right-hand side, the span, the initial state and the
  extra arguments; the tolerances and the method are part of the parameter) to the
  \<^verbatim>\<open>OdeResult\<close>, or to the exception it raises. The right-hand side is one of the three
  functions above, so the problem names it by a tag: \<open>Rhs_func\<close> for \<^verbatim>\<open>_func\<close>,
  \<open>Rhs_func1\<close> for \<^verbatim>\<open>_func1\<close>, \<open>Rhs_func_delta\<close> for \<^verbatim>\<open>_func_delta\<close>.
\<close>

datatype rhs_fun = Rhs_func | Rhs_func1 | Rhs_func_delta

record ivp =
  ivp_fun :: rhs_fun
  ivp_t_span :: "real \<times> real"
  ivp_y0 :: "complex list"
  ivp_args :: "real \<times> real \<times> real"

definition X0_vec :: "closure \<Rightarrow> real \<Rightarrow> real \<Rightarrow> complex list list" where
  "X0_vec cl eta_0 Kappa =
     [[complex_of_real (- mu_prime cl 0 eta_0 Kappa), 0, 0, 0],
      [0, 0, 1, 0],
      [0, 0, 0, 1],
      [0, 0, 0, 0]]"

text \<open>
  The loop \<^verbatim>\<open>for i, X0 in enumerate(X0_vec)\<close> of \<^verbatim>\<open>_solve_system\<close>. The calls to
  \<^verbatim>\<open>solve_ivp\<close> are an effect: the loop carries the log of the problems submitted so
  far, next to \<^verbatim>\<open>Results\<close>, and stops at the first call that raises.
\<close>

fun solve_loop ::
  "(ivp \<Rightarrow> 'r result) \<Rightarrow> real \<times> real \<Rightarrow> real \<times> real \<times> real \<Rightarrow> (nat \<times> complex list) list
     \<Rightarrow> ivp list \<Rightarrow> 'r list \<Rightarrow> ivp list \<times> 'r list result" where
  "solve_loop solve_ivp eta_span_tp args [] calls Results = (calls, Inr Results)"
| "solve_loop solve_ivp eta_span_tp args ((i, X0) # rest) calls Results =
     (let call = \<lparr>ivp_fun = (if i = 0 then Rhs_func1 else if i = 4 then Rhs_func_delta else Rhs_func),
                   ivp_t_span = eta_span_tp, ivp_y0 = X0, ivp_args = args\<rparr>
      in case solve_ivp call of
           Inl e \<Rightarrow> (calls @ [call], Inl e)
         | Inr test \<Rightarrow> solve_loop solve_ivp eta_span_tp args rest (calls @ [call]) (Results @ [test]))"

text \<open>
  \<^verbatim>\<open>_solve_system(eta_0, eta_H, Kappa, max_z)\<close>, with \<^verbatim>\<open>max_z\<close> given (its only caller
  gives it).
\<close>

definition solve_system ::
  "(ivp \<Rightarrow> 'r result) \<Rightarrow> closure \<Rightarrow> real \<Rightarrow> real \<Rightarrow> real \<Rightarrow> real \<Rightarrow> ivp list \<times> 'r list result" where
  "solve_system solve_ivp cl eta_0 eta_H Kappa max_z =
     solve_loop solve_ivp (0, max_z) (eta_H, eta_0, Kappa)
       (enumerate 0 (X0_vec cl eta_0 Kappa)) [] []"

section \<open>Boundary matching\<close>

text \<open>Arithmetic of NumPy complex values: \<^verbatim>\<open>nan\<close> and \<^verbatim>\<open>inf\<close> stay.\<close>

definition c_sub :: "cnum \<Rightarrow> cnum \<Rightarrow> cnum" where
  "c_sub x y = (case (x, y) of (Some u, Some v) \<Rightarrow> Some (u - v) | _ \<Rightarrow> None)"

definition c_div :: "cnum \<Rightarrow> cnum \<Rightarrow> cnum" where
  "c_div x y =
     (case (x, y) of (Some u, Some v) \<Rightarrow> if v = 0 then None else Some (u / v) | _ \<Rightarrow> None)"

text \<open>
  \<^verbatim>\<open>np.dot(A, v)\<close> for a 2-d \<^verbatim>\<open>A\<close> of numbers and a 1-d \<^verbatim>\<open>v\<close>: every entry of the
  product sums over all of \<^verbatim>\<open>v\<close>.
\<close>

definition c_dot :: "complex list list \<Rightarrow> cnum list \<Rightarrow> cnum list result" where
  "c_dot A v =
     (if list_all (\<lambda>r. length r = length v) A
      then Inr (map (\<lambda>r. map_option (vdot r) (those v)) A)
      else Inl ValueError)"

definition det3 :: "complex list list \<Rightarrow> complex" where
  "det3 A =
     A ! 0 ! 0 * (A ! 1 ! 1 * A ! 2 ! 2 - A ! 1 ! 2 * A ! 2 ! 1)
     - A ! 0 ! 1 * (A ! 1 ! 0 * A ! 2 ! 2 - A ! 1 ! 2 * A ! 2 ! 0)
     + A ! 0 ! 2 * (A ! 1 ! 0 * A ! 2 ! 1 - A ! 1 ! 1 * A ! 2 ! 0)"

text \<open>
  \<^verbatim>\<open>np.linalg.inv\<close> raises \<^verbatim>\<open>LinAlgError\<close> for a matrix that is not square, and when
  the LU factorisation of LAPACK meets a pivot that is exactly zero; when it returns, it
  returns the inverse. Whether a pivot is zero is decided in floating point, with rounding,
  so it is not a function of the determinant: it is the parameter \<open>zero_pivot\<close> of the
  model, and it may hold of a matrix that is not singular. A singular matrix has no inverse
  to return, and the model raises for it; where LAPACK misses the zero pivot of a singular
  matrix by rounding, what it returns is not an inverse and is outside the model, as
  rounding is. The matrix given here has three rows, so the inverse is written out for
  three by three, by cofactors.
\<close>

definition linalg_inv ::
  "(complex list list \<Rightarrow> bool) \<Rightarrow> complex list list \<Rightarrow> complex list list result" where
  "linalg_inv zero_pivot A =
     (if map length A \<noteq> [3, 3, 3] then Inl LinAlgError
      else let d = det3 A
           in if d = 0 \<or> zero_pivot A then Inl LinAlgError
              else Inr
                [[(A ! 1 ! 1 * A ! 2 ! 2 - A ! 1 ! 2 * A ! 2 ! 1) / d,
                  (A ! 0 ! 2 * A ! 2 ! 1 - A ! 0 ! 1 * A ! 2 ! 2) / d,
                  (A ! 0 ! 1 * A ! 1 ! 2 - A ! 0 ! 2 * A ! 1 ! 1) / d],
                 [(A ! 1 ! 2 * A ! 2 ! 0 - A ! 1 ! 0 * A ! 2 ! 2) / d,
                  (A ! 0 ! 0 * A ! 2 ! 2 - A ! 0 ! 2 * A ! 2 ! 0) / d,
                  (A ! 0 ! 2 * A ! 1 ! 0 - A ! 0 ! 0 * A ! 1 ! 2) / d],
                 [(A ! 1 ! 0 * A ! 2 ! 1 - A ! 1 ! 1 * A ! 2 ! 0) / d,
                  (A ! 0 ! 1 * A ! 2 ! 0 - A ! 0 ! 0 * A ! 2 ! 1) / d,
                  (A ! 0 ! 0 * A ! 1 ! 1 - A ! 0 ! 1 * A ! 1 ! 0) / d]])"

text \<open>
  The right-hand side \<^verbatim>\<open>b\<close> of \<^verbatim>\<open>calculate_solution\<close>, for a scalar \<^verbatim>\<open>eta_B\<close>; the
  divisions are Python's, in the order of the source.
\<close>

definition rhs_b ::
  "closure \<Rightarrow> real \<Rightarrow> real \<Rightarrow> real \<Rightarrow> real \<Rightarrow> real \<Rightarrow> real \<Rightarrow> cnum list result" where
  "rhs_b cl eta_0 eta_H eta_B Fr max_z Kappa =
     (case py_div 1 max_z of
        Inl e \<Rightarrow> Inl e
      | Inr r \<Rightarrow>
          (case q1 (Scalar eta_B) of
             Inl e \<Rightarrow> Inl e
           | Inr (Array qs) \<Rightarrow> Inl TypeError
           | Inr (Scalar q) \<Rightarrow>
               (case py_div 1 (eta_H * Fr\<^sup>2) of
                  Inl e \<Rightarrow> Inl e
                | Inr f \<Rightarrow>
                    Inr [Some (\<i> * complex_of_real (mu cl max_z eta_0 Kappa)),
                         Some (complex_of_real r),
                         map_option
                           (\<lambda>q. (complex_of_real (mu cl max_z eta_0 Kappa))\<^sup>2
                                  * (q + complex_of_real f)) q])))"

text \<open>
  \<^verbatim>\<open>pars = np.dot(np.linalg.inv(To_apply[:, :-1]), b - To_apply[:, -1])\<close>: the inverse is
  taken first; every row has a last entry once it has succeeded.
\<close>

definition boundary_pars ::
  "(complex list list \<Rightarrow> bool) \<Rightarrow> complex list list \<Rightarrow> cnum list \<Rightarrow> cnum list result" where
  "boundary_pars zero_pivot To_apply b =
     (case linalg_inv zero_pivot (map butlast To_apply) of
        Inl e \<Rightarrow> Inl e
      | Inr Ainv \<Rightarrow> c_dot Ainv (map2 c_sub b (map (\<lambda>r. Some (last r)) To_apply)))"

text \<open>
  The local variables of \<^verbatim>\<open>calculate_solution\<close> when it returns. The two closures it
  returns, \<^verbatim>\<open>interpolated_solution\<close> and \<^verbatim>\<open>streamfunction_FA\<close>, read
  \<^verbatim>\<open>Results\<close> and \<^verbatim>\<open>coeffs\<close>.
\<close>

record frame =
  cs_max_z :: real
  cs_Results :: "(real \<Rightarrow> complex list) list"
  cs_To_apply :: "complex list list"
  cs_b :: "cnum list"
  cs_pars :: "cnum list"
  cs_coeffs :: "cnum list"

text \<open>
  \<^verbatim>\<open>calculate_solution(eta_0, eta_H, eta_B, Fr, max_z, Kappa)\<close>. An \<^verbatim>\<open>OdeResult\<close> is
  read only through its dense output \<^verbatim>\<open>X.sol\<close>, a function from a height to a state of
  four entries; \<^verbatim>\<open>np.array\<close> of states of different lengths raises \<^verbatim>\<open>ValueError\<close>.
  The parameter \<open>zero_pivot\<close> is that of \<^verbatim>\<open>np.linalg.inv\<close>. The result is the log of the
  calls to \<^verbatim>\<open>solve_ivp\<close> and the outcome.
\<close>

definition calculate_solution ::
  "(ivp \<Rightarrow> (real \<Rightarrow> complex list) result) \<Rightarrow> (complex list list \<Rightarrow> bool) \<Rightarrow> closure
     \<Rightarrow> real \<Rightarrow> real \<Rightarrow> real \<Rightarrow> real \<Rightarrow> real option \<Rightarrow> real
     \<Rightarrow> ivp list \<times> frame result" where
  "calculate_solution solve_ivp zero_pivot cl eta_0 eta_H eta_B Fr max_z Kappa =
     (let max_z = (case max_z of None \<Rightarrow> 0.9999 * eta_H | Some z \<Rightarrow> z)
      in case solve_system solve_ivp cl eta_0 eta_H 0.4 max_z of
           (calls, Inl e) \<Rightarrow> (calls, Inl e)
         | (calls, Inr Results) \<Rightarrow>
             (calls,
              let rows = map (\<lambda>X. tl (X max_z)) Results
              in if \<not> list_all (\<lambda>r. length r = ncols rows) rows then Inl ValueError
                 else let To_apply = transpose2 (ncols rows) rows
                      in case rhs_b cl eta_0 eta_H eta_B Fr max_z Kappa of
                           Inl e \<Rightarrow> Inl e
                         | Inr b \<Rightarrow>
                             (case boundary_pars zero_pivot To_apply b of
                                Inl e \<Rightarrow> Inl e
                              | Inr pars \<Rightarrow>
                                  Inr \<lparr>cs_max_z = max_z, cs_Results = Results,
                                       cs_To_apply = To_apply, cs_b = b, cs_pars = pars,
                                       cs_coeffs = [Some 1, c_div (pars ! 1) (pars ! 0),
                                                    c_div (pars ! 2) (pars ! 0),
                                                    c_div (Some 1) (pars ! 0)]\<rparr>)))"

text \<open>
  The product \<open>M p\<close> of the matrix \<open>M\<close> with three rows whose columns are \<open>cols\<close>,
  to state what linear system \<^verbatim>\<open>pars\<close> solves.
\<close>

definition col_comb :: "complex list list \<Rightarrow> complex list \<Rightarrow> complex list" where
  "col_comb cols p = map (\<lambda>i. vdot (column i cols) p) [0..<3]"

section \<open>Exact solutions\<close>

text \<open>The right-hand side that a tag names.\<close>

fun rhs_eval ::
  "rhs_fun \<Rightarrow> closure \<Rightarrow> real \<Rightarrow> ndarray \<Rightarrow> real \<Rightarrow> real \<Rightarrow> real \<Rightarrow> ndarray result" where
  "rhs_eval Rhs_func = func"
| "rhs_eval Rhs_func1 = func1"
| "rhs_eval Rhs_func_delta = func_delta"

text \<open>
  What the dense output \<open>X\<close> of \<^verbatim>\<open>solve_ivp\<close> approximates for the problem \<open>p\<close>: the
  solution of the initial-value problem. It starts from the initial state, has four entries
  and is continuous on the span, and inside the span its derivative is the right-hand side
  \<^verbatim>\<open>fun(eta, X(eta), *args)\<close>. The error of the integrator is outside the model, as
  rounding is.
\<close>

definition solves :: "closure \<Rightarrow> ivp \<Rightarrow> (real \<Rightarrow> complex list) \<Rightarrow> bool" where
  "solves cl p X \<longleftrightarrow>
     X (fst (ivp_t_span p)) = ivp_y0 p
     \<and> (\<forall>eta. fst (ivp_t_span p) \<le> eta \<and> eta \<le> snd (ivp_t_span p) \<longrightarrow> length (X eta) = 4)
     \<and> (\<forall>i<4. continuous_on {fst (ivp_t_span p)..snd (ivp_t_span p)} (\<lambda>eta. X eta ! i))
     \<and> (\<forall>eta. fst (ivp_t_span p) < eta \<and> eta < snd (ivp_t_span p) \<longrightarrow>
          (\<exists>d. rhs_eval (ivp_fun p) cl eta (Vec (X eta))
                  (fst (ivp_args p)) (fst (snd (ivp_args p))) (snd (snd (ivp_args p)))
                = Inr (Vec d)
               \<and> (\<forall>i<4. ((\<lambda>t. X t ! i) has_vector_derivative d ! i) (at eta))))"

section \<open>Test doubles\<close>

text \<open>
  A closure provider and an integrator to evaluate the model at concrete inputs: a linear
  viscosity profile with its derivative, and an integrator that never raises and returns
  the initial state with, for the forced problem, its second entry grown by the height.
\<close>

definition test_closure :: closure where
  "test_closure =
     \<lparr>mu = (\<lambda>eta eta_0 Kappa. (eta + eta_0) / Kappa),
      mu_prime = (\<lambda>eta eta_0 Kappa. 1 / Kappa)\<rparr>"

definition test_solve_ivp :: "ivp \<Rightarrow> (real \<Rightarrow> complex list) result" where
  "test_solve_ivp p =
     Inr (\<lambda>eta. vec_add (ivp_y0 p)
                  (if ivp_fun p = Rhs_func1 then [0, complex_of_real eta, 0, 0] else [0, 0, 0, 0]))"

text \<open>An integrator that never raises and returns the initial state at every height.\<close>

definition frozen_solve_ivp :: "ivp \<Rightarrow> (real \<Rightarrow> complex list) result" where
  "frozen_solve_ivp p = Inr (\<lambda>eta. ivp_y0 p)"

text \<open>A factorisation that meets a zero pivot in no matrix that has an inverse.\<close>

definition test_zero_pivot :: "complex list list \<Rightarrow> bool" where
  "test_zero_pivot A = False"

text \<open>The frame of one run on the test doubles.\<close>

definition test_frame :: frame where
  "test_frame =
     projr (snd (calculate_solution test_solve_ivp test_zero_pivot test_closure 1 4 1 1 (Some 2) (1 / 2)))"

section \<open>The radiation condition on scalars and arrays\<close>

lemma q1_scalar:
  "q1 (Scalar e) =
     (if e > 1 then Inr (Scalar (q1_decaying (complex_of_real e)))
      else map_sum id Scalar (q1_propagating e))"
  by (cases "q1_propagating e")
     (simp_all add: piecewise_def select_def mask_assign_def)

declare q1.simps [simp del]

lemma q1_decaying_real:
  assumes "1 < e"
  shows "q1_decaying (complex_of_real e) = Some (complex_of_real (- sqrt (1 - 1 / e\<^sup>2)))"
proof -
  have "1 < e\<^sup>2"
    using assms by (simp add: power2_eq_square less_1_mult)
  then have nn: "0 \<le> 1 - 1 / e\<^sup>2"
    by (simp add: divide_le_eq)
  have "1 - 1 / (complex_of_real e)\<^sup>2 = complex_of_real (1 - 1 / e\<^sup>2)"
    by simp
  then have "csqrt (1 - 1 / (complex_of_real e)\<^sup>2) = complex_of_real (sqrt (1 - 1 / e\<^sup>2))"
    using nn by (simp only: of_real_sqrt)
  moreover have "(complex_of_real e)\<^sup>2 \<noteq> 0"
    using assms by simp
  ultimately show ?thesis
    by (simp add: q1_decaying_def)
qed

lemma q1_propagating_real:
  assumes "e \<noteq> 0" and "- 1 \<le> e" and "e \<le> 1"
  shows "q1_propagating e = Inr (Some (\<i> * complex_of_real (sqrt (1 / e\<^sup>2 - 1))))"
proof -
  have "e\<^sup>2 \<le> 1"
    using assms by (simp add: abs_le_iff abs_square_le_1)
  moreover have "0 < e\<^sup>2"
    using assms by simp
  ultimately have "1 \<le> 1 / e\<^sup>2"
    by simp
  then show ?thesis
    using assms by (simp add: q1_propagating_def py_div_def np_sqrt_def)
qed

lemma decaying_root_nonpos:
  fixes e :: real
  assumes "1 < e"
  shows "- sqrt (1 - 1 / e\<^sup>2) \<le> 0"
proof -
  have "1 < e\<^sup>2"
    using assms by (simp add: power2_eq_square less_1_mult)
  then show ?thesis
    by (simp add: divide_le_eq)
qed

text \<open>
  Claim C5, as the code has it. For a scalar \<open>eta_B > 1\<close>, \<^verbatim>\<open>_q1\<close> returns the real,
  non-positive number \<open>- sqrt (1 - 1 / eta_B\<^sup>2)\<close>. For a scalar \<open>eta_B \<le> 1\<close> that is not
  zero and not below \<open>- 1\<close> it returns the purely imaginary \<open>\<i> * sqrt (1 / eta_B\<^sup>2 - 1)\<close>.
  At the branch boundary \<open>eta_B = 1\<close> both formulas give zero.
\<close>

theorem q1_branches:
  "(1 < eta_B \<longrightarrow>
      q1 (Scalar eta_B) = Inr (Scalar (Some (complex_of_real (- sqrt (1 - 1 / eta_B\<^sup>2)))))
      \<and> - sqrt (1 - 1 / eta_B\<^sup>2) \<le> 0)
   \<and> (eta_B \<le> 1 \<and> - 1 \<le> eta_B \<and> eta_B \<noteq> 0 \<longrightarrow>
      q1 (Scalar eta_B) = Inr (Scalar (Some (\<i> * complex_of_real (sqrt (1 / eta_B\<^sup>2 - 1))))))
   \<and> q1_decaying 1 = Some 0
   \<and> q1 (Scalar 1) = Inr (Scalar (Some 0))"
proof -
  have a: "q1 (Scalar eta_B) = Inr (Scalar (Some (complex_of_real (- sqrt (1 - 1 / eta_B\<^sup>2)))))"
    if "1 < eta_B"
    using that q1_decaying_real [OF that] by (simp only: q1_scalar if_True)
  have b: "q1 (Scalar eta_B) = Inr (Scalar (Some (\<i> * complex_of_real (sqrt (1 / eta_B\<^sup>2 - 1)))))"
    if "eta_B \<le> 1" and "- 1 \<le> eta_B" and "eta_B \<noteq> 0"
    using that q1_propagating_real [of eta_B] by (simp add: q1_scalar)
  have c: "q1_decaying 1 = Some 0"
    by (simp add: q1_decaying_def)
  have d: "q1 (Scalar 1) = Inr (Scalar (Some 0))"
    using q1_propagating_real [of 1] by (simp add: q1_scalar)
  show ?thesis
    using a b c d decaying_root_nonpos by blast
qed

theorem q1_branches_witness:
  "(1 :: real) < 2 \<and> (1 / 2 :: real) \<le> 1 \<and> (- 1 :: real) \<le> 1 / 2 \<and> (1 / 2 :: real) \<noteq> 0
   \<and> q1 (Scalar 2) = Inr (Scalar (Some (complex_of_real (- sqrt (1 - 1 / 2\<^sup>2)))))
   \<and> q1 (Scalar (1 / 2)) = Inr (Scalar (Some (\<i> * complex_of_real (sqrt (1 / (1 / 2)\<^sup>2 - 1)))))"
  using q1_branches [of 2] q1_branches [of "1 / 2"] by simp

text \<open>
  Claim C5 as stated, for every real scalar, fails at \<open>eta_B = 0\<close>, where the division
  raises, and at \<open>eta_B = - 2\<close>, where the square root of \<open>1 / 4 - 1\<close> is \<^verbatim>\<open>nan\<close>.
\<close>

theorem q1_outside_domain:
  "q1 (Scalar 0) = Inl ZeroDivisionError \<and> q1 (Scalar (- 2)) = Inr (Scalar None)"
  by (simp add: q1_scalar q1_propagating_def py_div_def np_sqrt_def)

text \<open>
  On an array whose entries all lie on one side of 1, \<^verbatim>\<open>_q1\<close> returns one value for
  each entry: only one of the two functions is called, for all the entries.
\<close>

lemma select_all:
  assumes "list_all p es"
  shows "select (map p es) (map f es) = map f es"
  using assms by (induction es) (simp_all add: select_def)

lemma select_none:
  assumes "list_all (\<lambda>e. \<not> p e) es"
  shows "select (map p es) (map f es) = []"
  using assms by (induction es) (simp_all add: select_def)

lemma mask_assign_all:
  assumes "list_all p es" and "length y = length es" and "length v = length es"
  shows "mask_assign y (map p es) v = Inr v"
proof -
  have k: "length (filter id (map p es)) = length es"
    using assms(1) by (induction es) simp_all
  have "scatter y (map p es) v = v"
    using assms
  proof (induction es arbitrary: y v)
    case Nil
    then show ?case by simp
  next
    case (Cons e es)
    then obtain y0 ys v0 vs where "y = y0 # ys" "v = v0 # vs"
      by (cases y; cases v) simp_all
    with Cons show ?case by simp
  qed
  with k assms(3) show ?thesis
    by (simp add: mask_assign_def)
qed

lemma q1_array_propagating:
  assumes "list_all (\<lambda>e. e \<le> 1) es"
  shows "q1 (Array es) = Inr (Array (map q1_propagating_entry es))"
proof -
  have no: "list_all (\<lambda>e. \<not> 1 < e) es"
    using assms by (simp add: list_all_iff not_less)
  have s1: "select (map (\<lambda>e. 1 < e) es) (map complex_of_real es) = []"
    using no by (rule select_none)
  have s2: "select (map (\<lambda>e. e \<le> 1) es) (map complex_of_real es) = map complex_of_real es"
    using assms by (rule select_all)
  have a: "mask_assign (replicate (length es) (Some 0)) (map (\<lambda>e. e \<le> 1) es)
             (map q1_propagating_entry es) = Inr (map q1_propagating_entry es)"
    using assms by (rule mask_assign_all) simp_all
  show ?thesis
  proof (cases "es = []")
    case True
    then show ?thesis
      by (simp add: q1.simps piecewise_def select_def)
  next
    case False
    then show ?thesis
      by (simp add: q1.simps piecewise_def s1 s2 a)
  qed
qed

lemma q1_array_decaying:
  assumes "list_all (\<lambda>e. 1 < e) es"
  shows "q1 (Array es) = Inr (Array (map (\<lambda>e. q1_decaying (complex_of_real e)) es))"
proof -
  have no: "list_all (\<lambda>e. \<not> e \<le> 1) es"
    using assms by (simp add: list_all_iff not_le)
  have s1: "select (map (\<lambda>e. 1 < e) es) (map complex_of_real es) = map complex_of_real es"
    using assms by (rule select_all)
  have s2: "select (map (\<lambda>e. e \<le> 1) es) (map complex_of_real es) = []"
    using no by (rule select_none)
  have a: "mask_assign (replicate (length es) (Some 0)) (map (\<lambda>e. 1 < e) es)
             (map (\<lambda>e. q1_decaying (complex_of_real e)) es)
           = Inr (map (\<lambda>e. q1_decaying (complex_of_real e)) es)"
    using assms by (rule mask_assign_all) simp_all
  show ?thesis
  proof (cases "es = []")
    case True
    then show ?thesis
      by (simp add: q1.simps piecewise_def select_def)
  next
    case False
    then show ?thesis
      by (simp add: q1.simps piecewise_def s1 s2 a comp_def)
  qed
qed

text \<open>
  Claim C6 asks that \<^verbatim>\<open>_q1\<close> on an array be \<^verbatim>\<open>_q1\<close> on each entry. On the array
  \<open>[1 / 2, 2]\<close>, which mixes the two regimes, the second function returns two values (it
  computes from the whole of \<^verbatim>\<open>eta_B\<close>) for the one entry selected, and the assignment
  raises \<^verbatim>\<open>ValueError\<close>; each entry alone has a value.
\<close>

theorem q1_mixed_array:
  "q1 (Array [1 / 2, 2]) = Inl ValueError
   \<and> q1 (Scalar (1 / 2)) = Inr (Scalar (Some (\<i> * complex_of_real (sqrt (1 / (1 / 2)\<^sup>2 - 1)))))
   \<and> q1 (Scalar 2) = Inr (Scalar (Some (complex_of_real (- sqrt (1 - 1 / 2\<^sup>2)))))"
proof -
  have "q1 (Array [1 / 2, 2]) = Inl ValueError"
    by (simp add: q1.simps piecewise_def select_def mask_assign_def)
  moreover have "q1 (Scalar (1 / 2)) =
      Inr (Scalar (Some (\<i> * complex_of_real (sqrt (1 / (1 / 2)\<^sup>2 - 1)))))"
    using q1_propagating_real [of "1 / 2"] by (simp add: q1_scalar)
  moreover have "q1 (Scalar 2) = Inr (Scalar (Some (complex_of_real (- sqrt (1 - 1 / 2\<^sup>2)))))"
    using q1_decaying_real [of 2] by (simp add: q1_scalar)
  ultimately show ?thesis
    by blast
qed

section \<open>The problems that are integrated\<close>

lemma solve_system_unfold:
  "solve_system solve_ivp cl eta_0 eta_H Kappa max_z =
     (let c0 = \<lparr>ivp_fun = Rhs_func1, ivp_t_span = (0, max_z),
                 ivp_y0 = [complex_of_real (- mu_prime cl 0 eta_0 Kappa), 0, 0, 0],
                 ivp_args = (eta_H, eta_0, Kappa)\<rparr>;
          c1 = \<lparr>ivp_fun = Rhs_func, ivp_t_span = (0, max_z), ivp_y0 = [0, 0, 1, 0],
                 ivp_args = (eta_H, eta_0, Kappa)\<rparr>;
          c2 = \<lparr>ivp_fun = Rhs_func, ivp_t_span = (0, max_z), ivp_y0 = [0, 0, 0, 1],
                 ivp_args = (eta_H, eta_0, Kappa)\<rparr>;
          c3 = \<lparr>ivp_fun = Rhs_func, ivp_t_span = (0, max_z), ivp_y0 = [0, 0, 0, 0],
                 ivp_args = (eta_H, eta_0, Kappa)\<rparr>
      in case solve_ivp c0 of Inl e \<Rightarrow> ([c0], Inl e) | Inr r0 \<Rightarrow>
         (case solve_ivp c1 of Inl e \<Rightarrow> ([c0, c1], Inl e) | Inr r1 \<Rightarrow>
         (case solve_ivp c2 of Inl e \<Rightarrow> ([c0, c1, c2], Inl e) | Inr r2 \<Rightarrow>
         (case solve_ivp c3 of Inl e \<Rightarrow> ([c0, c1, c2, c3], Inl e) | Inr r3 \<Rightarrow>
            ([c0, c1, c2, c3], Inr [r0, r1, r2, r3])))))"
  by (simp add: solve_system_def X0_vec_def Let_def split: sum.splits)

lemma solve_system_calls_nonempty:
  "fst (solve_system solve_ivp cl eta_0 eta_H Kappa max_z) \<noteq> []"
  by (simp add: solve_system_unfold Let_def split: sum.splits)

lemma solve_system_hd:
  "hd (fst (solve_system solve_ivp cl eta_0 eta_H Kappa max_z)) =
     \<lparr>ivp_fun = Rhs_func1, ivp_t_span = (0, max_z),
      ivp_y0 = [complex_of_real (- mu_prime cl 0 eta_0 Kappa), 0, 0, 0],
      ivp_args = (eta_H, eta_0, Kappa)\<rparr>"
  by (simp add: solve_system_unfold Let_def split: sum.splits)

lemma solve_system_args:
  "list_all (\<lambda>c. ivp_args c = (eta_H, eta_0, Kappa) \<and> ivp_t_span c = (0, max_z))
     (fst (solve_system solve_ivp cl eta_0 eta_H Kappa max_z))"
  by (simp add: solve_system_unfold Let_def split: sum.splits)

lemma solve_system_Results:
  assumes "solve_system solve_ivp cl eta_0 eta_H Kappa max_z = (calls, Inr Results)"
  shows "\<exists>r0 r1 r2 r3. Results = [r0, r1, r2, r3]"
  using assms by (auto simp add: solve_system_unfold Let_def split: sum.splits)

text \<open>
  Claim C1 says that \<^verbatim>\<open>_solve_system\<close> integrates five problems, the fifth driven by
  \<^verbatim>\<open>_func_delta\<close>. The list \<^verbatim>\<open>X0_vec\<close> has four initial states, so the index of the
  loop ends at 3 and the branch \<^verbatim>\<open>elif i == 4\<close> is never taken: with any integrator that
  does not raise, four problems are submitted and four results are returned, the fourth
  from the zero state under \<^verbatim>\<open>_func\<close>; and whatever the integrator does, no problem
  driven by \<^verbatim>\<open>_func_delta\<close> is ever submitted.
\<close>

theorem solve_system_integrates_four:
  "solve_system (\<lambda>p. Inr (sol p)) cl eta_0 eta_H Kappa max_z =
     ([\<lparr>ivp_fun = Rhs_func1, ivp_t_span = (0, max_z),
        ivp_y0 = [complex_of_real (- mu_prime cl 0 eta_0 Kappa), 0, 0, 0],
        ivp_args = (eta_H, eta_0, Kappa)\<rparr>,
       \<lparr>ivp_fun = Rhs_func, ivp_t_span = (0, max_z), ivp_y0 = [0, 0, 1, 0],
        ivp_args = (eta_H, eta_0, Kappa)\<rparr>,
       \<lparr>ivp_fun = Rhs_func, ivp_t_span = (0, max_z), ivp_y0 = [0, 0, 0, 1],
        ivp_args = (eta_H, eta_0, Kappa)\<rparr>,
       \<lparr>ivp_fun = Rhs_func, ivp_t_span = (0, max_z), ivp_y0 = [0, 0, 0, 0],
        ivp_args = (eta_H, eta_0, Kappa)\<rparr>],
      Inr [sol \<lparr>ivp_fun = Rhs_func1, ivp_t_span = (0, max_z),
                ivp_y0 = [complex_of_real (- mu_prime cl 0 eta_0 Kappa), 0, 0, 0],
                ivp_args = (eta_H, eta_0, Kappa)\<rparr>,
           sol \<lparr>ivp_fun = Rhs_func, ivp_t_span = (0, max_z), ivp_y0 = [0, 0, 1, 0],
                ivp_args = (eta_H, eta_0, Kappa)\<rparr>,
           sol \<lparr>ivp_fun = Rhs_func, ivp_t_span = (0, max_z), ivp_y0 = [0, 0, 0, 1],
                ivp_args = (eta_H, eta_0, Kappa)\<rparr>,
           sol \<lparr>ivp_fun = Rhs_func, ivp_t_span = (0, max_z), ivp_y0 = [0, 0, 0, 0],
                ivp_args = (eta_H, eta_0, Kappa)\<rparr>])
   \<and> Rhs_func_delta \<notin> ivp_fun ` set (fst (solve_system solve_ivp cl eta_0 eta_H Kappa max_z))"
  by (simp add: solve_system_unfold Let_def split: sum.splits)

section \<open>The steps of \<^verbatim>\<open>calculate_solution\<close>\<close>

lemma calculate_solution_calls:
  "fst (calculate_solution solve_ivp zero_pivot cl eta_0 eta_H eta_B Fr max_z Kappa) =
     fst (solve_system solve_ivp cl eta_0 eta_H 0.4
            (case max_z of None \<Rightarrow> 0.9999 * eta_H | Some z \<Rightarrow> z))"
  by (simp add: calculate_solution_def Let_def split: prod.splits sum.splits)

lemma calculate_solution_Inr:
  assumes "snd (calculate_solution solve_ivp zero_pivot cl eta_0 eta_H eta_B Fr max_z Kappa) = Inr fr"
  shows "cs_max_z fr = (case max_z of None \<Rightarrow> 0.9999 * eta_H | Some z \<Rightarrow> z)"
    and "snd (solve_system solve_ivp cl eta_0 eta_H 0.4 (cs_max_z fr)) = Inr (cs_Results fr)"
    and "list_all (\<lambda>r. length r = ncols (map (\<lambda>X. tl (X (cs_max_z fr))) (cs_Results fr)))
           (map (\<lambda>X. tl (X (cs_max_z fr))) (cs_Results fr))"
    and "cs_To_apply fr =
           transpose2 (ncols (map (\<lambda>X. tl (X (cs_max_z fr))) (cs_Results fr)))
             (map (\<lambda>X. tl (X (cs_max_z fr))) (cs_Results fr))"
    and "rhs_b cl eta_0 eta_H eta_B Fr (cs_max_z fr) Kappa = Inr (cs_b fr)"
    and "boundary_pars zero_pivot (cs_To_apply fr) (cs_b fr) = Inr (cs_pars fr)"
    and "cs_coeffs fr =
           [Some 1, c_div (cs_pars fr ! 1) (cs_pars fr ! 0),
            c_div (cs_pars fr ! 2) (cs_pars fr ! 0), c_div (Some 1) (cs_pars fr ! 0)]"
  using assms
  by (auto simp add: calculate_solution_def Let_def split: prod.splits sum.splits if_splits)

text \<open>The definitions to unfold when the model is run on the test doubles.\<close>

lemmas run_defs =
  calculate_solution_def solve_system_unfold Let_def test_solve_ivp_def test_closure_def
  test_zero_pivot_def
  vec_add_def ncols_def transpose2_def column_def rhs_b_def py_div_def q1_scalar
  q1_propagating_def q1_decaying_def np_sqrt_def boundary_pars_def linalg_inv_def det3_def
  c_dot_def c_sub_def c_div_def vdot_def power2_eq_square

text \<open>
  Claim C3. Whatever \<^verbatim>\<open>Kappa\<close> the caller gives, the problems submitted to the
  integrator are those of \<^verbatim>\<open>_solve_system\<close> with the constant 0.4, and each carries
  the arguments \<open>(eta_H, eta_0, 0.4)\<close>; the right-hand side \<^verbatim>\<open>b\<close> is built with the
  \<^verbatim>\<open>Kappa\<close> given. So for \<^verbatim>\<open>Kappa\<close> other than 0.4 no integrated problem has the
  constant that \<^verbatim>\<open>b\<close> has.
\<close>

theorem calculate_solution_two_kappas:
  "fst (calculate_solution solve_ivp zero_pivot cl eta_0 eta_H eta_B Fr max_z Kappa) =
     fst (solve_system solve_ivp cl eta_0 eta_H 0.4
            (case max_z of None \<Rightarrow> 0.9999 * eta_H | Some z \<Rightarrow> z))
   \<and> list_all (\<lambda>c. ivp_args c = (eta_H, eta_0, 0.4))
        (fst (calculate_solution solve_ivp zero_pivot cl eta_0 eta_H eta_B Fr max_z Kappa))
   \<and> (Kappa \<noteq> 0.4 \<longrightarrow>
        list_all (\<lambda>c. snd (snd (ivp_args c)) \<noteq> Kappa)
          (fst (calculate_solution solve_ivp zero_pivot cl eta_0 eta_H eta_B Fr max_z Kappa)))
   \<and> (snd (calculate_solution solve_ivp zero_pivot cl eta_0 eta_H eta_B Fr max_z Kappa) = Inr fr \<longrightarrow>
        rhs_b cl eta_0 eta_H eta_B Fr (cs_max_z fr) Kappa = Inr (cs_b fr)
        \<and> cs_b fr ! 0 = Some (\<i> * complex_of_real (mu cl (cs_max_z fr) eta_0 Kappa)))"
proof -
  let ?mz = "case max_z of None \<Rightarrow> 0.9999 * eta_H | Some z \<Rightarrow> z"
  let ?calls = "fst (calculate_solution solve_ivp zero_pivot cl eta_0 eta_H eta_B Fr max_z Kappa)"
  have calls: "?calls = fst (solve_system solve_ivp cl eta_0 eta_H 0.4 ?mz)"
    by (rule calculate_solution_calls)
  have "list_all (\<lambda>c. ivp_args c = (eta_H, eta_0, 0.4) \<and> ivp_t_span c = (0, ?mz)) ?calls"
    unfolding calls by (rule solve_system_args)
  then have args: "list_all (\<lambda>c. ivp_args c = (eta_H, eta_0, 0.4)) ?calls"
    by (simp add: list_all_iff)
  then have other: "list_all (\<lambda>c. snd (snd (ivp_args c)) \<noteq> Kappa) ?calls" if "Kappa \<noteq> 0.4"
    using that by (auto simp add: list_all_iff)
  have b: "rhs_b cl eta_0 eta_H eta_B Fr (cs_max_z fr) Kappa = Inr (cs_b fr)
           \<and> cs_b fr ! 0 = Some (\<i> * complex_of_real (mu cl (cs_max_z fr) eta_0 Kappa))"
    if "snd (calculate_solution solve_ivp zero_pivot cl eta_0 eta_H eta_B Fr max_z Kappa) = Inr fr"
  proof -
    have r: "rhs_b cl eta_0 eta_H eta_B Fr (cs_max_z fr) Kappa = Inr (cs_b fr)"
      using that by (rule calculate_solution_Inr)
    from r [symmetric]
    have "cs_b fr ! 0 = Some (\<i> * complex_of_real (mu cl (cs_max_z fr) eta_0 Kappa))"
      by (auto simp add: rhs_b_def split: sum.splits nd.splits)
    with r show ?thesis
      by simp
  qed
  show ?thesis
    using calls args other b by blast
qed

theorem calculate_solution_two_kappas_witness:
  "\<exists>fr. (1 / 2 :: real) \<noteq> 0.4
     \<and> snd (calculate_solution test_solve_ivp test_zero_pivot test_closure 1 4 1 1 (Some 2) (1 / 2)) = Inr fr
     \<and> list_all (\<lambda>c. ivp_args c = (4, 1, 0.4))
         (fst (calculate_solution test_solve_ivp test_zero_pivot test_closure 1 4 1 1 (Some 2) (1 / 2)))
     \<and> list_all (\<lambda>c. snd (snd (ivp_args c)) \<noteq> 1 / 2)
         (fst (calculate_solution test_solve_ivp test_zero_pivot test_closure 1 4 1 1 (Some 2) (1 / 2)))
     \<and> rhs_b test_closure 1 4 1 1 (cs_max_z fr) (1 / 2) = Inr (cs_b fr)
     \<and> cs_b fr ! 0 = Some (\<i> * complex_of_real (mu test_closure (cs_max_z fr) 1 (1 / 2)))"
proof -
  have "\<not> isl (snd (calculate_solution test_solve_ivp test_zero_pivot test_closure 1 4 1 1 (Some 2) (1 / 2)))"
    by (simp add: run_defs)
  then obtain fr where
    fr: "snd (calculate_solution test_solve_ivp test_zero_pivot test_closure 1 4 1 1 (Some 2) (1 / 2)) = Inr fr"
    by (cases "snd (calculate_solution test_solve_ivp test_zero_pivot test_closure 1 4 1 1 (Some 2) (1 / 2))") auto
  have k: "(1 / 2 :: real) \<noteq> 0.4"
    by simp
  show ?thesis
    using calculate_solution_two_kappas
      [of test_solve_ivp test_zero_pivot test_closure 1 4 1 1 "Some 2" "1 / 2" fr] fr k
    by blast
qed

lemma rhs_b_defined:
  assumes "max_z \<noteq> 0" and "eta_H \<noteq> 0" and "Fr \<noteq> 0" and "0 < eta_B"
  shows "\<exists>b. rhs_b cl eta_0 eta_H eta_B Fr max_z Kappa = Inr b"
proof -
  have "\<exists>q. q1 (Scalar eta_B) = Inr (Scalar q)"
    using assms(4) by (simp add: q1_scalar q1_propagating_def py_div_def)
  then show ?thesis
    using assms(1-3) by (auto simp add: rhs_b_def py_div_def)
qed

text \<open>
  Claim C4. When \<^verbatim>\<open>calculate_solution\<close> returns, for \<open>eta_B > 0\<close>, its right-hand side
  is \<open>b = [\<i> * mu, 1 / max_z, mu\<^sup>2 * (q + 1 / (eta_H * Fr\<^sup>2))]\<close> with
  \<open>mu = mu(max_z, eta_0, Kappa)\<close> and \<open>q\<close> the value of \<^verbatim>\<open>_q1(eta_B)\<close>.
\<close>

theorem calculate_solution_rhs:
  assumes "snd (calculate_solution solve_ivp zero_pivot cl eta_0 eta_H eta_B Fr max_z Kappa) = Inr fr"
    and "0 < eta_B"
  shows "\<exists>q. q1 (Scalar eta_B) = Inr (Scalar (Some q))
          \<and> cs_max_z fr = (case max_z of None \<Rightarrow> 0.9999 * eta_H | Some z \<Rightarrow> z)
          \<and> cs_b fr =
              [Some (\<i> * complex_of_real (mu cl (cs_max_z fr) eta_0 Kappa)),
               Some (complex_of_real (1 / cs_max_z fr)),
               Some ((complex_of_real (mu cl (cs_max_z fr) eta_0 Kappa))\<^sup>2
                     * (q + complex_of_real (1 / (eta_H * Fr\<^sup>2))))]"
proof -
  have r: "rhs_b cl eta_0 eta_H eta_B Fr (cs_max_z fr) Kappa = Inr (cs_b fr)"
    using assms(1) by (rule calculate_solution_Inr)
  have mz: "cs_max_z fr = (case max_z of None \<Rightarrow> 0.9999 * eta_H | Some z \<Rightarrow> z)"
    using assms(1) by (rule calculate_solution_Inr)
  have "\<exists>q. q1 (Scalar eta_B) = Inr (Scalar (Some q))"
  proof (cases "1 < eta_B")
    case True
    then show ?thesis
      by (simp add: q1_scalar q1_decaying_def)
  next
    case False
    then have "eta_B\<^sup>2 \<le> 1"
      using assms(2) by (simp add: abs_square_le_1)
    moreover have "0 < eta_B\<^sup>2"
      using assms(2) by simp
    ultimately have "1 \<le> 1 / eta_B\<^sup>2"
      by simp
    then show ?thesis
      using False assms(2) by (simp add: q1_scalar q1_propagating_def py_div_def np_sqrt_def)
  qed
  then obtain q where q: "q1 (Scalar eta_B) = Inr (Scalar (Some q))"
    by blast
  then have "cs_b fr =
      [Some (\<i> * complex_of_real (mu cl (cs_max_z fr) eta_0 Kappa)),
       Some (complex_of_real (1 / cs_max_z fr)),
       Some ((complex_of_real (mu cl (cs_max_z fr) eta_0 Kappa))\<^sup>2
             * (q + complex_of_real (1 / (eta_H * Fr\<^sup>2))))]"
    using r [symmetric] by (auto simp add: rhs_b_def py_div_def split: if_splits)
  with q mz show ?thesis
    by blast
qed

theorem calculate_solution_rhs_witness:
  "\<exists>fr q. snd (calculate_solution test_solve_ivp test_zero_pivot test_closure 1 4 (1 / 2) 1 (Some 2) (1 / 2)) = Inr fr
     \<and> (0 :: real) < 1 / 2
     \<and> q1 (Scalar (1 / 2)) = Inr (Scalar (Some q))
     \<and> cs_max_z fr = 2
     \<and> cs_b fr =
         [Some (\<i> * complex_of_real (mu test_closure (cs_max_z fr) 1 (1 / 2))),
          Some (complex_of_real (1 / cs_max_z fr)),
          Some ((complex_of_real (mu test_closure (cs_max_z fr) 1 (1 / 2)))\<^sup>2
                * (q + complex_of_real (1 / (4 * 1\<^sup>2))))]"
proof -
  have "\<not> isl (snd (calculate_solution test_solve_ivp test_zero_pivot test_closure 1 4 (1 / 2) 1 (Some 2) (1 / 2)))"
    by (simp add: run_defs)
  then obtain fr where
    fr: "snd (calculate_solution test_solve_ivp test_zero_pivot test_closure 1 4 (1 / 2) 1 (Some 2) (1 / 2)) = Inr fr"
    by (cases "snd (calculate_solution test_solve_ivp test_zero_pivot test_closure 1 4 (1 / 2) 1 (Some 2) (1 / 2))")
       auto
  have pos: "(0 :: real) < 1 / 2"
    by simp
  show ?thesis
    using calculate_solution_rhs [OF fr pos] fr pos by auto
qed

text \<open>
  Claim C8 as stated fails: with \<open>eta_0 = - 1\<close>, \<open>eta_H = - 1\<close> and \<open>max_z = 2\<close>, all
  three invalid, the four problems are submitted to the integrator and, with an integrator
  that does not raise, \<^verbatim>\<open>calculate_solution\<close> returns.
\<close>

theorem calculate_solution_invalid_parameters:
  "length (fst (calculate_solution test_solve_ivp test_zero_pivot test_closure (- 1) (- 1) (1 / 2) 1
                  (Some 2) 0.4)) = 4
   \<and> \<not> isl (snd (calculate_solution test_solve_ivp test_zero_pivot test_closure (- 1) (- 1) (1 / 2) 1
                    (Some 2) 0.4))"
  by (simp add: run_defs)

text \<open>
  Claim C8, as the code has it: \<^verbatim>\<open>calculate_solution\<close> checks none of its parameters.
  For every input its first action is to submit the forced problem to the integrator,
  over the span from 0 to \<^verbatim>\<open>max_z\<close> (or to \<open>0.9999 * eta_H\<close>).
\<close>

theorem calculate_solution_integrates_first:
  "fst (calculate_solution solve_ivp zero_pivot cl eta_0 eta_H eta_B Fr max_z Kappa) \<noteq> []
   \<and> hd (fst (calculate_solution solve_ivp zero_pivot cl eta_0 eta_H eta_B Fr max_z Kappa)) =
       \<lparr>ivp_fun = Rhs_func1,
        ivp_t_span = (0, case max_z of None \<Rightarrow> 0.9999 * eta_H | Some z \<Rightarrow> z),
        ivp_y0 = [complex_of_real (- mu_prime cl 0 eta_0 0.4), 0, 0, 0],
        ivp_args = (eta_H, eta_0, 0.4)\<rparr>"
  by (simp only: calculate_solution_calls solve_system_calls_nonempty solve_system_hd
        not_False_eq_True simp_thms)

section \<open>Single states and batches\<close>

lemma P_rows:
  assumes "P cl eta eta_H eta_0 Kappa = Inr A"
  shows "length A = 4" and "list_all (\<lambda>r. length r = 4) A"
  using assms by (auto simp add: P_def Let_def split: if_splits)

lemma S_length:
  "S cl eta eta_H eta_0 Kappa = Inr s \<Longrightarrow> length s = 4"
  by (auto simp add: S_def Let_def split: if_splits)

lemma S_delta_length:
  "S_delta cl eta eta_H eta_0 Kappa = Inr s \<Longrightarrow> length s = 4"
  by (auto simp add: S_delta_def Let_def split: if_splits)

lemma ncols_rows:
  assumes "X \<noteq> []" and "list_all (\<lambda>r. length r = N) X"
  shows "ncols X = N"
  using assms by (cases X) (simp_all add: ncols_def)

lemma length_column [simp]: "length (column j M) = length M"
  by (simp add: column_def)

lemma dot_column:
  assumes "length A = 4" and "list_all (\<lambda>r. length r = 4) A"
    and "length X = 4" and "list_all (\<lambda>r. length r = N) X" and "j < N"
  shows "dot A (Mat X) = Inr (Mat (map (\<lambda>r. map (\<lambda>k. vdot r (column k X)) [0..<N]) A))"
    and "dot A (Vec (column j X)) = Inr (Vec (map (\<lambda>r. vdot r (column j X)) A))"
proof -
  have "X \<noteq> []" using assms(3) by auto
  then have "ncols X = N" using assms(4) by (rule ncols_rows)
  then show "dot A (Mat X) = Inr (Mat (map (\<lambda>r. map (\<lambda>k. vdot r (column k X)) [0..<N]) A))"
    using assms(2,3) by simp
  show "dot A (Vec (column j X)) = Inr (Vec (map (\<lambda>r. vdot r (column j X)) A))"
    using assms(2,3) by simp
qed

lemma column_products:
  assumes "j < N"
  shows "column j (map (\<lambda>r. map (\<lambda>k. vdot r (column k X)) [0..<N]) A) =
         map (\<lambda>r. vdot r (column j X)) A"
  using assms by (simp add: column_def)

lemma column_mat_add:
  assumes "list_all (\<lambda>r. j < length r) Y" and "list_all (\<lambda>r. j < length r) T"
  shows "column j (mat_add Y T) = vec_add (column j Y) (column j T)"
  using assms
proof (induction Y arbitrary: T)
  case Nil
  then show ?case by (simp add: column_def mat_add_def vec_add_def)
next
  case (Cons y Y)
  show ?case
  proof (cases T)
    case Nil
    then show ?thesis by (simp add: column_def mat_add_def vec_add_def)
  next
    case (Cons t T')
    then have "column j (mat_add Y T') = vec_add (column j Y) (column j T')"
      using Cons.IH [of T'] Cons.prems by simp
    moreover have "vec_add y t ! j = y ! j + t ! j"
      using Cons.prems Cons by (simp add: vec_add_def)
    ultimately show ?thesis
      using Cons by (simp add: column_def mat_add_def vec_add_def)
  qed
qed

lemma column_tile:
  assumes "j < n"
  shows "column j (transpose2 (length s) (tile s n)) = s"
  using assms by (auto simp add: column_def transpose2_def tile_def intro!: nth_equalityI)

lemma ncols_products:
  assumes "A \<noteq> []"
  shows "ncols (map (\<lambda>r. map (f r) [0..<N]) A) = N"
  using assms by (cases A) (simp_all add: ncols_def)

lemma ncols_mat_add:
  assumes "Y \<noteq> []" "T \<noteq> []" "list_all (\<lambda>r. length r = N) Y" "list_all (\<lambda>r. length r = N) T"
  shows "ncols (mat_add Y T) = N"
  using assms by (cases Y; cases T) (simp_all add: ncols_def mat_add_def vec_add_def)


lemma forcing_column:
  assumes "length A = 4" and "length s = 4" and "j < N"
  shows "take_column j (add_forcing (Mat (map (\<lambda>r. map (\<lambda>k. vdot r (column k X)) [0..<N]) A)) s N)
         = Inr (add_forcing (Vec (map (\<lambda>r. vdot r (column j X)) A)) s 1)"
proof -
  let ?Y = "map (\<lambda>r. map (\<lambda>k. vdot r (column k X)) [0..<N]) A"
  let ?T = "transpose2 (length s) (tile s N)"
  have A: "A \<noteq> []" using assms(1) by auto
  have Y: "list_all (\<lambda>r. length r = N) ?Y" by (simp add: list_all_iff)
  have T: "list_all (\<lambda>r. length r = N) ?T"
    by (simp add: list_all_iff transpose2_def tile_def column_def)
  have "?T \<noteq> []" using assms(2) by (auto simp add: transpose2_def)
  moreover have "?Y \<noteq> []" using A by simp
  ultimately have n: "ncols (mat_add ?Y ?T) = N" using Y T by (rule_tac ncols_mat_add) auto
  have "column j (mat_add ?Y ?T) = vec_add (column j ?Y) (column j ?T)"
    using Y T assms(3) by (intro column_mat_add) (auto simp add: list_all_iff)
  also have "column j ?Y = map (\<lambda>r. vdot r (column j X)) A"
    using assms(3) by (rule column_products)
  also have "column j ?T = s" using assms(3) by (rule column_tile)
  finally show ?thesis using n assms(3) by simp
qed

lemma plain_column:
  assumes "length A = 4" and "j < N"
  shows "take_column j (Mat (map (\<lambda>r. map (\<lambda>k. vdot r (column k X)) [0..<N]) A))
         = Inr (Vec (map (\<lambda>r. vdot r (column j X)) A))"
proof -
  have "A \<noteq> []" using assms(1) by auto
  then have "ncols (map (\<lambda>r. map (\<lambda>k. vdot r (column k X)) [0..<N]) A) = N"
    by (rule ncols_products [where f = "\<lambda>r k. vdot r (column k X)"])
  then show ?thesis using assms(2) by (simp add: column_products)
qed

lemma func_batch:
  assumes "length X = 4" and "list_all (\<lambda>r. length r = N) X" and "j < N"
  shows "(case func cl eta (Mat X) eta_H eta_0 Kappa of Inl e \<Rightarrow> Inl e | Inr Y \<Rightarrow> take_column j Y)
         = func cl eta (Vec (column j X)) eta_H eta_0 Kappa"
proof (cases "P cl eta eta_H eta_0 Kappa")
  case (Inl e)
  then show ?thesis by (simp add: func_def)
next
  case (Inr A)
  note A = P_rows [OF Inr]
  show ?thesis
    using Inr dot_column [OF A assms] plain_column [OF A(1) assms(3)]
    by (simp add: func_def)
qed

lemma func1_batch:
  assumes "length X = 4" and "list_all (\<lambda>r. length r = N) X" and "j < N"
  shows "(case func1 cl eta (Mat X) eta_H eta_0 Kappa of Inl e \<Rightarrow> Inl e | Inr Y \<Rightarrow> take_column j Y)
         = func1 cl eta (Vec (column j X)) eta_H eta_0 Kappa"
proof (cases "P cl eta eta_H eta_0 Kappa")
  case (Inl e)
  then show ?thesis by (simp add: func1_def)
next
  case (Inr A)
  note A = P_rows [OF Inr]
  have "X \<noteq> []" using assms(1) by auto
  then have n: "ncols X = N" using assms(2) by (rule ncols_rows)
  show ?thesis
  proof (cases "S cl eta eta_H eta_0 Kappa")
    case (Inl e)
    then show ?thesis using Inr dot_column [OF A assms] by (simp add: func1_def)
  next
    case s: (Inr s)
    show ?thesis
      using Inr s n dot_column [OF A assms]
        forcing_column [OF A(1) S_length [OF s] assms(3)]
      by (simp add: func1_def)
  qed
qed

lemma func_delta_batch:
  assumes "length X = 4" and "list_all (\<lambda>r. length r = N) X" and "j < N"
  shows "(case func_delta cl eta (Mat X) eta_H eta_0 Kappa of Inl e \<Rightarrow> Inl e | Inr Y \<Rightarrow> take_column j Y)
         = func_delta cl eta (Vec (column j X)) eta_H eta_0 Kappa"
proof (cases "P cl eta eta_H eta_0 Kappa")
  case (Inl e)
  then show ?thesis by (simp add: func_delta_def)
next
  case (Inr A)
  note A = P_rows [OF Inr]
  have "X \<noteq> []" using assms(1) by auto
  then have n: "ncols X = N" using assms(2) by (rule ncols_rows)
  show ?thesis
  proof (cases "S_delta cl eta eta_H eta_0 Kappa")
    case (Inl e)
    then show ?thesis using Inr dot_column [OF A assms] by (simp add: func_delta_def)
  next
    case s: (Inr s)
    show ?thesis
      using Inr s n dot_column [OF A assms]
        forcing_column [OF A(1) S_delta_length [OF s] assms(3)]
      by (simp add: func_delta_def)
  qed
qed

lemma fields_defined:
  assumes "eta_H \<noteq> 0" and "eta \<noteq> eta_H" and "mu_prime cl eta eta_0 Kappa \<noteq> 0"
  shows "\<exists>A. P cl eta eta_H eta_0 Kappa = Inr A"
    and "\<exists>s. S cl eta eta_H eta_0 Kappa = Inr s"
    and "\<exists>s. S_delta cl eta eta_H eta_0 Kappa = Inr s"
  using assms by (simp_all add: P_def S_def S_delta_def Let_def)

lemma batch_defined:
  assumes "eta_H \<noteq> 0" and "eta \<noteq> eta_H" and "mu_prime cl eta eta_0 Kappa \<noteq> 0"
    and "length X = 4" and "list_all (\<lambda>r. length r = N) X" and "j < N"
  shows "\<not> isl (func cl eta (Mat X) eta_H eta_0 Kappa)"
    and "\<not> isl (func1 cl eta (Mat X) eta_H eta_0 Kappa)"
    and "\<not> isl (func_delta cl eta (Mat X) eta_H eta_0 Kappa)"
proof -
  from fields_defined [OF assms(1-3)] obtain A s d
    where A: "P cl eta eta_H eta_0 Kappa = Inr A"
      and s: "S cl eta eta_H eta_0 Kappa = Inr s"
      and d: "S_delta cl eta eta_H eta_0 Kappa = Inr d"
    by blast
  note dot = dot_column(1) [OF P_rows [OF A] assms(4-6)]
  show "\<not> isl (func cl eta (Mat X) eta_H eta_0 Kappa)"
    using A dot by (simp add: func_def)
  show "\<not> isl (func1 cl eta (Mat X) eta_H eta_0 Kappa)"
    using A s dot by (simp add: func1_def)
  show "\<not> isl (func_delta cl eta (Mat X) eta_H eta_0 Kappa)"
    using A d dot by (simp add: func_delta_def)
qed

text \<open>
  Claim C10. For a batch \<open>X\<close> of four rows and \<open>N\<close> columns and every \<open>j < N\<close>, column
  \<open>j\<close> of the result of each of \<^verbatim>\<open>_func\<close>, \<^verbatim>\<open>_func1\<close> and \<^verbatim>\<open>_func_delta\<close> on the
  batch is the result of the same function on the single state \<^verbatim>\<open>X[:, j]\<close>; the two calls
  raise the same exception if one raises. For parameters with \<open>eta_H \<noteq> 0\<close>,
  \<open>eta \<noteq> eta_H\<close> and \<open>mu_prime \<noteq> 0\<close> none of them raises.
\<close>

theorem vector_fields_batch:
  assumes "length X = 4" and "list_all (\<lambda>r. length r = N) X" and "j < N"
  shows "(case func cl eta (Mat X) eta_H eta_0 Kappa of
            Inl e \<Rightarrow> Inl e | Inr Y \<Rightarrow> take_column j Y)
           = func cl eta (Vec (column j X)) eta_H eta_0 Kappa
         \<and> (case func1 cl eta (Mat X) eta_H eta_0 Kappa of
               Inl e \<Rightarrow> Inl e | Inr Y \<Rightarrow> take_column j Y)
             = func1 cl eta (Vec (column j X)) eta_H eta_0 Kappa
         \<and> (case func_delta cl eta (Mat X) eta_H eta_0 Kappa of
               Inl e \<Rightarrow> Inl e | Inr Y \<Rightarrow> take_column j Y)
             = func_delta cl eta (Vec (column j X)) eta_H eta_0 Kappa
         \<and> (eta_H \<noteq> 0 \<and> eta \<noteq> eta_H \<and> mu_prime cl eta eta_0 Kappa \<noteq> 0 \<longrightarrow>
               \<not> isl (func cl eta (Mat X) eta_H eta_0 Kappa)
               \<and> \<not> isl (func1 cl eta (Mat X) eta_H eta_0 Kappa)
               \<and> \<not> isl (func_delta cl eta (Mat X) eta_H eta_0 Kappa))"
proof -
  have "\<not> isl (func cl eta (Mat X) eta_H eta_0 Kappa)
        \<and> \<not> isl (func1 cl eta (Mat X) eta_H eta_0 Kappa)
        \<and> \<not> isl (func_delta cl eta (Mat X) eta_H eta_0 Kappa)"
    if "eta_H \<noteq> 0 \<and> eta \<noteq> eta_H \<and> mu_prime cl eta eta_0 Kappa \<noteq> 0"
  proof -
    from that have v: "eta_H \<noteq> 0" "eta \<noteq> eta_H" "mu_prime cl eta eta_0 Kappa \<noteq> 0"
      by simp_all
    show ?thesis
      by (intro conjI batch_defined [OF v assms])
  qed
  then show ?thesis
    by (intro conjI impI func_batch [OF assms] func1_batch [OF assms]
          func_delta_batch [OF assms]) simp_all
qed

theorem vector_fields_batch_witness:
  "length [[1, 2], [3, 4], [5, 6], [7, 8 :: complex]] = 4
   \<and> list_all (\<lambda>r. length r = 2) [[1, 2], [3, 4], [5, 6], [7, 8 :: complex]]
   \<and> (1 :: nat) < 2
   \<and> (2 :: real) \<noteq> 0 \<and> (1 :: real) \<noteq> 2 \<and> mu_prime test_closure 1 1 (1 / 2) \<noteq> 0
   \<and> (case func1 test_closure 1 (Mat [[1, 2], [3, 4], [5, 6], [7, 8]]) 2 1 (1 / 2) of
         Inl e \<Rightarrow> Inl e | Inr Y \<Rightarrow> take_column 1 Y)
       = func1 test_closure 1 (Vec (column 1 [[1, 2], [3, 4], [5, 6], [7, 8]])) 2 1 (1 / 2)
   \<and> \<not> isl (func1 test_closure 1 (Mat [[1, 2], [3, 4], [5, 6], [7, 8]]) 2 1 (1 / 2))"
  using vector_fields_batch
    [of "[[1, 2], [3, 4], [5, 6], [7, 8]]" 2 1 test_closure 1 2 1 "1 / 2"]
  by (simp add: test_closure_def)

section \<open>The linear solve\<close>

lemma three_entries:
  assumes "length r = 3"
  shows "\<exists>x y z. r = [x, y, z]"
  using assms by (auto simp add: length_Suc_conv eval_nat_numeral)

lemma three_rows:
  assumes "map length A = [3, 3, 3]"
  shows "\<exists>a b c d e f g h i. A = [[a, b, c], [d, e, f], [g, h, i]]"
proof -
  from assms obtain r0 r1 r2 where A: "A = [r0, r1, r2]"
    and l: "length r0 = 3" "length r1 = 3" "length r2 = 3"
    by (auto simp add: map_eq_Cons_conv)
  from three_entries [OF l(1)] three_entries [OF l(2)] three_entries [OF l(3)] A show ?thesis
    by blast
qed

lemma cofactor_row:
  fixes D :: complex
  assumes "D \<noteq> 0" and "p * n1 + q * n2 + r * n3 = D * x"
  shows "p * (n1 / D) + q * (n2 / D) + r * (n3 / D) = x"
proof -
  have "p * (n1 / D) + q * (n2 / D) + r * (n3 / D) = (p * n1 + q * n2 + r * n3) / D"
    by (simp add: add_divide_distrib)
  also have "\<dots> = D * x / D"
    by (simp only: assms(2))
  also have "\<dots> = x"
    using assms(1) by simp
  finally show ?thesis .
qed

lemma linalg_inv_solves:
  assumes "linalg_inv zero_pivot A = Inr Ainv"
  shows "map (\<lambda>r. vdot r (map (\<lambda>r'. vdot r' [x, y, z]) Ainv)) A = [x, y, z]"
proof -
  from assms have len: "map length A = [3, 3, 3]" and d: "det3 A \<noteq> 0"
    and nz: "\<not> zero_pivot A"
    by (auto simp add: linalg_inv_def Let_def split: if_splits)
  from three_rows [OF len] obtain a b c d e f g h i
    where A: "A = [[a, b, c], [d, e, f], [g, h, i]]" by blast
  define D where "D = det3 A"
  have D: "D = a * (e * i - f * h) - b * (d * i - f * g) + c * (d * h - e * g)"
    by (simp add: D_def A det3_def)
  have D0: "D \<noteq> 0" using d by (simp add: D_def)
  define n1 where "n1 = (e * i - f * h) * x + (c * h - b * i) * y + (b * f - c * e) * z"
  define n2 where "n2 = (f * g - d * i) * x + (a * i - c * g) * y + (c * d - a * f) * z"
  define n3 where "n3 = (d * h - e * g) * x + (b * g - a * h) * y + (a * e - b * d) * z"
  have "Ainv = [[(e * i - f * h) / D, (c * h - b * i) / D, (b * f - c * e) / D],
                [(f * g - d * i) / D, (a * i - c * g) / D, (c * d - a * f) / D],
                [(d * h - e * g) / D, (b * g - a * h) / D, (a * e - b * d) / D]]"
    using assms [symmetric] d nz by (simp add: linalg_inv_def Let_def D_def A)
  then have Ainv: "map (\<lambda>r'. vdot r' [x, y, z]) Ainv = [n1 / D, n2 / D, n3 / D]"
    by (simp add: vdot_def n1_def n2_def n3_def add_divide_distrib)
  have "a * n1 + b * n2 + c * n3 = D * x"
    unfolding D n1_def n2_def n3_def by (simp add: algebra_simps)
  then have r1: "a * (n1 / D) + b * (n2 / D) + c * (n3 / D) = x"
    by (rule cofactor_row [OF D0])
  have "d * n1 + e * n2 + f * n3 = D * y"
    unfolding D n1_def n2_def n3_def by (simp add: algebra_simps)
  then have r2: "d * (n1 / D) + e * (n2 / D) + f * (n3 / D) = y"
    by (rule cofactor_row [OF D0])
  have "g * n1 + h * n2 + i * n3 = D * z"
    unfolding D n1_def n2_def n3_def by (simp add: algebra_simps)
  then have r3: "g * (n1 / D) + h * (n2 / D) + i * (n3 / D) = z"
    by (rule cofactor_row [OF D0])
  show ?thesis
    unfolding Ainv using r1 r2 r3 by (simp add: A vdot_def add.assoc)
qed


lemma rhs_b_length:
  assumes "rhs_b cl eta_0 eta_H eta_B Fr max_z Kappa = Inr b"
  shows "length b = 3"
  using assms [symmetric] by (auto simp add: rhs_b_def split: sum.splits nd.splits)

lemma those_three:
  assumes "those [x, y, z] = Some bv"
  shows "\<exists>u v w. x = Some u \<and> y = Some v \<and> z = Some w \<and> bv = [u, v, w]"
  using assms by (auto split: option.splits)

lemma linalg_inv_error:
  assumes "linalg_inv zero_pivot A = Inl e"
  shows "e = LinAlgError"
  using assms by (auto simp add: linalg_inv_def Let_def split: if_splits)

lemma linalg_inv_rows:
  assumes "linalg_inv zero_pivot A = Inr Ainv"
  shows "map length A = [3, 3, 3]" and "map length Ainv = [3, 3, 3]" and "det3 A \<noteq> 0"
  using assms [symmetric] by (auto simp add: linalg_inv_def Let_def split: if_splits)

text \<open>The shape of \<^verbatim>\<open>To_apply\<close> for four results.\<close>

lemma To_apply_shape:
  assumes rows: "list_all (\<lambda>r. length r = ncols [t0, t1, t2, t3]) [t0, t1, t2, t3]"
    and inv: "map length (map butlast (transpose2 (ncols [t0, t1, t2, t3]) [t0, t1, t2, t3])) = [3, 3, 3]"
  shows "length t0 = 3 \<and> length t1 = 3 \<and> length t2 = 3 \<and> length t3 = 3"
    and "transpose2 (ncols [t0, t1, t2, t3]) [t0, t1, t2, t3] =
           [[t0 ! 0, t1 ! 0, t2 ! 0, t3 ! 0],
            [t0 ! 1, t1 ! 1, t2 ! 1, t3 ! 1],
            [t0 ! 2, t1 ! 2, t2 ! 2, t3 ! 2]]"
proof -
  have "length (map butlast (transpose2 (ncols [t0, t1, t2, t3]) [t0, t1, t2, t3])) = length t0"
    by (simp add: transpose2_def ncols_def)
  moreover have "length (map butlast (transpose2 (ncols [t0, t1, t2, t3]) [t0, t1, t2, t3])) = 3"
    using arg_cong [OF inv, of length] by simp
  ultimately have n: "length t0 = 3" by simp
  then have nc: "ncols [t0, t1, t2, t3] = 3" by (simp add: ncols_def)
  show "length t0 = 3 \<and> length t1 = 3 \<and> length t2 = 3 \<and> length t3 = 3"
    using rows n by (simp add: nc)
  have "[0..<3] = [0, 1, 2]" by (simp add: upt_rec)
  then show "transpose2 (ncols [t0, t1, t2, t3]) [t0, t1, t2, t3] =
           [[t0 ! 0, t1 ! 0, t2 ! 0, t3 ! 0],
            [t0 ! 1, t1 ! 1, t2 ! 1, t3 ! 1],
            [t0 ! 2, t1 ! 2, t2 ! 2, t3 ! 2]]"
    by (simp add: nc transpose2_def column_def)
qed

lemma boundary_pars_solves:
  assumes "boundary_pars zero_pivot [[a0, a1, a2, a3], [b0, b1, b2, b3], [c0, c1, c2, c3]]
             [Some x, Some y, Some z] = Inr pars"
  shows "\<exists>p. pars = map Some p \<and> length p = 3
           \<and> map (\<lambda>r. vdot r p) [[a0, a1, a2], [b0, b1, b2], [c0, c1, c2]]
               = [x - a3, y - b3, z - c3]"
proof -
  let ?A = "[[a0, a1, a2], [b0, b1, b2], [c0, c1, c2]]"
  from assms obtain Ainv where inv: "linalg_inv zero_pivot ?A = Inr Ainv"
    and pars: "c_dot Ainv [Some (x - a3), Some (y - b3), Some (z - c3)] = Inr pars"
    by (auto simp add: boundary_pars_def c_sub_def split: sum.splits)
  let ?v = "[x - a3, y - b3, z - c3]"
  let ?p = "map (\<lambda>r'. vdot r' ?v) Ainv"
  have 1: "pars = map Some ?p"
    using pars [symmetric] by (auto simp add: c_dot_def split: if_splits)
  have 2: "length ?p = 3"
    using arg_cong [OF linalg_inv_rows(2) [OF inv], of length] by simp
  have 3: "map (\<lambda>r. vdot r ?p) ?A = ?v"
    by (rule linalg_inv_solves [OF inv])
  show ?thesis
    by (rule exI [of _ ?p]) (intro conjI 1 2 3)
qed

lemma c_dot_three:
  assumes "map length Ainv = [3, 3, 3]" and "length v = 3"
  shows "c_dot Ainv v = Inr (map (\<lambda>r. map_option (vdot r) (those v)) Ainv)"
proof -
  have "list_all (\<lambda>r. length r = 3) Ainv"
    using assms(1) by (auto simp add: map_eq_Cons_conv)
  then show ?thesis
    using assms(2) by (simp add: c_dot_def)
qed

text \<open>
  Claim C2, as the code has it. When \<^verbatim>\<open>calculate_solution\<close> returns with a finite
  \<^verbatim>\<open>b\<close>, \<^verbatim>\<open>Results\<close> has four solutions, \<^verbatim>\<open>To_apply\<close> holds the last three
  entries of each at \<^verbatim>\<open>max_z\<close>, one solution per column, and \<^verbatim>\<open>pars\<close> solves
  \<open>M_active pars = b - M_last\<close>, where the columns of \<open>M_active\<close> are those of the first
  three solutions (the forced one and the two homogeneous ones) and \<open>M_last\<close> is the
  column of the last solution.
\<close>

theorem calculate_solution_matching:
  assumes "snd (calculate_solution solve_ivp zero_pivot cl eta_0 eta_H eta_B Fr max_z Kappa) = Inr fr"
    and "those (cs_b fr) = Some bv"
  shows "\<exists>r0 r1 r2 r3 p.
           cs_Results fr = [r0, r1, r2, r3]
           \<and> cs_To_apply fr = transpose2 3 (map (\<lambda>X. tl (X (cs_max_z fr))) (cs_Results fr))
           \<and> cs_pars fr = map Some p \<and> length p = 3
           \<and> col_comb [tl (r0 (cs_max_z fr)), tl (r1 (cs_max_z fr)), tl (r2 (cs_max_z fr))] p
               = map2 (-) bv (tl (r3 (cs_max_z fr)))"
proof -
  let ?mz = "cs_max_z fr"
  note fr = calculate_solution_Inr [OF assms(1)]
  obtain calls where "solve_system solve_ivp cl eta_0 eta_H 0.4 ?mz = (calls, Inr (cs_Results fr))"
    using fr(2) by (cases "solve_system solve_ivp cl eta_0 eta_H 0.4 ?mz") simp
  from solve_system_Results [OF this] obtain r0 r1 r2 r3
    where R: "cs_Results fr = [r0, r1, r2, r3]" by blast
  define t0 t1 t2 t3 where "t0 = tl (r0 ?mz)" and "t1 = tl (r1 ?mz)"
    and "t2 = tl (r2 ?mz)" and "t3 = tl (r3 ?mz)"
  have rows: "map (\<lambda>X. tl (X ?mz)) (cs_Results fr) = [t0, t1, t2, t3]"
    by (simp add: R t0_def t1_def t2_def t3_def)
  have same: "list_all (\<lambda>r. length r = ncols [t0, t1, t2, t3]) [t0, t1, t2, t3]"
    using fr(3) unfolding rows .
  have T: "cs_To_apply fr = transpose2 (ncols [t0, t1, t2, t3]) [t0, t1, t2, t3]"
    using fr(4) unfolding rows .
  from fr(6) obtain Ainv where "linalg_inv zero_pivot (map butlast (cs_To_apply fr)) = Inr Ainv"
    by (auto simp add: boundary_pars_def split: sum.splits)
  then have "map length (map butlast (cs_To_apply fr)) = [3, 3, 3]"
    by (rule linalg_inv_rows)
  then have three: "map length (map butlast (transpose2 (ncols [t0, t1, t2, t3]) [t0, t1, t2, t3])) = [3, 3, 3]"
    unfolding T .
  note shape = To_apply_shape [OF same three]
  have nc: "ncols [t0, t1, t2, t3] = 3" using shape(1) by (simp add: ncols_def)
  have T3: "cs_To_apply fr = transpose2 3 (map (\<lambda>X. tl (X ?mz)) (cs_Results fr))"
    using T unfolding rows nc .
  from three_entries [of "cs_b fr"] rhs_b_length [OF fr(5)]
  obtain x y z where b: "cs_b fr = [x, y, z]" by blast
  from those_three [OF assms(2) [unfolded b]] obtain u v w
    where xyz: "x = Some u" "y = Some v" "z = Some w" and bv: "bv = [u, v, w]" by blast
  have "boundary_pars zero_pivot [[t0 ! 0, t1 ! 0, t2 ! 0, t3 ! 0],
            [t0 ! 1, t1 ! 1, t2 ! 1, t3 ! 1],
            [t0 ! 2, t1 ! 2, t2 ! 2, t3 ! 2]] [Some u, Some v, Some w] = Inr (cs_pars fr)"
    using fr(6) unfolding T shape(2) b xyz .
  from boundary_pars_solves [OF this] obtain p where pp: "cs_pars fr = map Some p \<and> length p = 3
    \<and> map (\<lambda>r. vdot r p) [[t0 ! 0, t1 ! 0, t2 ! 0], [t0 ! 1, t1 ! 1, t2 ! 1], [t0 ! 2, t1 ! 2, t2 ! 2]]
               = [u - t3 ! 0, v - t3 ! 1, w - t3 ! 2]"
    by (rule exE)
  then have p: "cs_pars fr = map Some p" "length p = 3"
    and sol: "map (\<lambda>r. vdot r p) [[t0 ! 0, t1 ! 0, t2 ! 0], [t0 ! 1, t1 ! 1, t2 ! 1], [t0 ! 2, t1 ! 2, t2 ! 2]]
               = [u - t3 ! 0, v - t3 ! 1, w - t3 ! 2]"
    by (rule conjunct1, rule conjunct2 [THEN conjunct1], rule conjunct2 [THEN conjunct2])
  have "[0..<3] = [0, 1, 2]" by (simp add: upt_rec)
  then have lhs: "col_comb [t0, t1, t2] p =
      map (\<lambda>r. vdot r p) [[t0 ! 0, t1 ! 0, t2 ! 0], [t0 ! 1, t1 ! 1, t2 ! 1], [t0 ! 2, t1 ! 2, t2 ! 2]]"
    by (simp add: col_comb_def column_def)
  from three_entries [of t3] shape(1) obtain l0 l1 l2 where "t3 = [l0, l1, l2]" by blast
  then have rhs: "map2 (-) bv t3 = [u - t3 ! 0, v - t3 ! 1, w - t3 ! 2]"
    by (simp add: bv)
  have "col_comb [t0, t1, t2] p = map2 (-) bv t3"
    unfolding lhs rhs by (rule sol)
  then show ?thesis
    using R T3 p unfolding t0_def t1_def t2_def t3_def by blast
qed

theorem calculate_solution_matching_witness:
  "\<exists>fr bv r0 r1 r2 r3 p.
     snd (calculate_solution test_solve_ivp test_zero_pivot test_closure 1 4 1 1 (Some 2) (1 / 2)) = Inr fr
     \<and> those (cs_b fr) = Some bv
     \<and> cs_Results fr = [r0, r1, r2, r3]
     \<and> cs_To_apply fr = transpose2 3 (map (\<lambda>X. tl (X (cs_max_z fr))) (cs_Results fr))
     \<and> cs_pars fr = map Some p \<and> length p = 3
     \<and> col_comb [tl (r0 (cs_max_z fr)), tl (r1 (cs_max_z fr)), tl (r2 (cs_max_z fr))] p
         = map2 (-) bv (tl (r3 (cs_max_z fr)))"
proof -
  have run: "snd (calculate_solution test_solve_ivp test_zero_pivot test_closure 1 4 1 1 (Some 2) (1 / 2))
             = Inr test_frame"
    by (simp add: test_frame_def run_defs)
  have b: "those (cs_b test_frame) = Some [\<i> * 6, 1 / 2, 9]"
    by (simp add: test_frame_def run_defs)
  show ?thesis
    using calculate_solution_matching [OF run b] run b by blast
qed

text \<open>
  Claim C2 as stated takes the columns of the two homogeneous solutions and of the last
  solution for \<open>M_active\<close> and the column of the forced solution for the one that is
  subtracted. On the test run \<^verbatim>\<open>pars\<close> does not solve that system.
\<close>

theorem calculate_solution_matching_as_claimed:
  "snd (calculate_solution test_solve_ivp test_zero_pivot test_closure 1 4 1 1 (Some 2) (1 / 2)) = Inr test_frame
   \<and> col_comb [tl ((cs_Results test_frame ! 1) 2), tl ((cs_Results test_frame ! 2) 2),
                tl ((cs_Results test_frame ! 3) 2)]
        (map the (cs_pars test_frame))
      \<noteq> map2 (-) (map the (cs_b test_frame)) (tl ((cs_Results test_frame ! 0) 2))"
  by (simp add: test_frame_def run_defs col_comb_def upt_rec)

text \<open>
  Claim C9, as the code has it. \<^verbatim>\<open>calculate_solution\<close> computes no condition number and
  makes no check of the matrix. With four results of four entries each and a right-hand
  side that is built without exception, it raises when \<^verbatim>\<open>np.linalg.inv\<close> raises, and
  then that plain \<^verbatim>\<open>LinAlgError\<close>; and when \<^verbatim>\<open>np.linalg.inv\<close> returns, whatever the
  matrix is, it returns, with \<^verbatim>\<open>pars\<close> the product of the inverse returned and of
  \<^verbatim>\<open>b - To_apply[:, -1]\<close>. This holds for every behaviour \<open>zero_pivot\<close> of the
  factorisation.
\<close>

theorem calculate_solution_inv_outcome:
  assumes "solve_system solve_ivp cl eta_0 eta_H 0.4 mz = (calls, Inr Results)"
    and "mz = (case max_z of None \<Rightarrow> 0.9999 * eta_H | Some z \<Rightarrow> z)"
    and "list_all (\<lambda>X. length (X mz) = 4) Results"
    and "rhs_b cl eta_0 eta_H eta_B Fr mz Kappa = Inr b"
  shows "(linalg_inv zero_pivot (map butlast (transpose2 3 (map (\<lambda>X. tl (X mz)) Results))) = Inl e
            \<longrightarrow> e = LinAlgError
                \<and> snd (calculate_solution solve_ivp zero_pivot cl eta_0 eta_H eta_B Fr max_z Kappa)
                    = Inl LinAlgError)
         \<and> (linalg_inv zero_pivot (map butlast (transpose2 3 (map (\<lambda>X. tl (X mz)) Results)))
               = Inr Ainv
            \<longrightarrow> (\<exists>fr. snd (calculate_solution solve_ivp zero_pivot cl eta_0 eta_H eta_B Fr max_z Kappa)
                        = Inr fr
                     \<and> cs_pars fr =
                         map (\<lambda>r. map_option (vdot r)
                                   (those (map2 c_sub b
                                      (map (\<lambda>r. Some (last r))
                                         (transpose2 3 (map (\<lambda>X. tl (X mz)) Results))))))
                           Ainv))"
proof -
  from solve_system_Results [OF assms(1)] obtain r0 r1 r2 r3
    where R: "Results = [r0, r1, r2, r3]" by blast
  let ?rows = "map (\<lambda>X. tl (X mz)) Results"
  let ?T = "transpose2 3 ?rows"
  let ?rhs = "map2 c_sub b (map (\<lambda>r. Some (last r)) ?T)"
  have len: "list_all (\<lambda>r. length r = 3) ?rows"
    using assms(3) by (simp add: R)
  have nc: "ncols ?rows = 3"
    using len by (simp add: R ncols_def)
  have same: "list_all (\<lambda>r. length r = ncols ?rows) ?rows"
    using len unfolding nc .
  have b3: "length ?rhs = 3"
    using rhs_b_length [OF assms(4)] by (simp add: transpose2_def)
  have cs: "snd (calculate_solution solve_ivp zero_pivot cl eta_0 eta_H eta_B Fr max_z Kappa) =
      (case boundary_pars zero_pivot ?T b of
         Inl e \<Rightarrow> Inl e
       | Inr pars \<Rightarrow>
           Inr \<lparr>cs_max_z = mz, cs_Results = Results, cs_To_apply = ?T, cs_b = b, cs_pars = pars,
                cs_coeffs = [Some 1, c_div (pars ! 1) (pars ! 0), c_div (pars ! 2) (pars ! 0),
                             c_div (Some 1) (pars ! 0)]\<rparr>)"
    using assms(1,4) same nc
    by (simp add: calculate_solution_def Let_def assms(2) [symmetric])
  show ?thesis
  proof (intro conjI impI)
    assume inv: "linalg_inv zero_pivot (map butlast ?T) = Inl e"
    then show "e = LinAlgError"
      by (rule linalg_inv_error)
    with inv show "snd (calculate_solution solve_ivp zero_pivot cl eta_0 eta_H eta_B Fr max_z Kappa)
        = Inl LinAlgError"
      by (simp add: cs boundary_pars_def)
  next
    assume inv: "linalg_inv zero_pivot (map butlast ?T) = Inr Ainv"
    have "boundary_pars zero_pivot ?T b = Inr (map (\<lambda>r. map_option (vdot r) (those ?rhs)) Ainv)"
      using c_dot_three [OF linalg_inv_rows(2) [OF inv] b3] by (simp add: boundary_pars_def inv)
    then show "\<exists>fr. snd (calculate_solution solve_ivp zero_pivot cl eta_0 eta_H eta_B Fr max_z Kappa)
                  = Inr fr
               \<and> cs_pars fr = map (\<lambda>r. map_option (vdot r) (those ?rhs)) Ainv"
      by (simp add: cs)
  qed
qed

theorem calculate_solution_inv_outcome_witness:
  "snd (calculate_solution frozen_solve_ivp test_zero_pivot test_closure 1 4 1 1 (Some 2) (1 / 2))
     = Inl LinAlgError
   \<and> (\<exists>fr. snd (calculate_solution test_solve_ivp test_zero_pivot test_closure 1 4 1 1 (Some 2)
                    (1 / 2)) = Inr fr
          \<and> cs_pars fr = [Some (\<i> * 3), Some (1 / 2), Some 9])"
proof -
  have mz: "(2 :: real) = (case Some 2 of None \<Rightarrow> 0.9999 * 4 | Some z \<Rightarrow> z)"
    by simp
  have b: "rhs_b test_closure 1 4 1 1 2 (1 / 2) = Inr [Some (\<i> * 6), Some (1 / 2), Some 9]"
    by (simp add: run_defs)
  have upt: "[0..<3] = [0, 1, 2]"
    by (simp add: upt_rec)
  let ?F = "[\<lambda>eta :: real. [- (5 / 2), 0, 0, 0 :: complex], \<lambda>eta. [0, 0, 1, 0],
             \<lambda>eta. [0, 0, 0, 1], \<lambda>eta. [0, 0, 0, 0]]"
  have F: "solve_system frozen_solve_ivp test_closure 1 4 0.4 2 =
      (fst (solve_system frozen_solve_ivp test_closure 1 4 0.4 2), Inr ?F)"
    by (simp add: solve_system_unfold frozen_solve_ivp_def test_closure_def Let_def)
  have F4: "list_all (\<lambda>X. length (X (2 :: real)) = 4) ?F"
    by simp
  have Fi: "linalg_inv test_zero_pivot
              (map butlast (transpose2 3 (map (\<lambda>X. tl (X (2 :: real))) ?F))) = Inl LinAlgError"
    using upt by (simp add: transpose2_def column_def linalg_inv_def det3_def)
  let ?G = "[\<lambda>eta :: real. [- (5 / 2), complex_of_real eta, 0, 0], \<lambda>eta. [0, 0, 1, 0],
             \<lambda>eta. [0, 0, 0, 1], \<lambda>eta. [0, 0, 0, 0]]"
  have G: "solve_system test_solve_ivp test_closure 1 4 0.4 2 =
      (fst (solve_system test_solve_ivp test_closure 1 4 0.4 2), Inr ?G)"
    by (simp add: solve_system_unfold test_solve_ivp_def test_closure_def vec_add_def Let_def)
  have G4: "list_all (\<lambda>X. length (X (2 :: real)) = 4) ?G"
    by simp
  have Gi: "linalg_inv test_zero_pivot
              (map butlast (transpose2 3 (map (\<lambda>X. tl (X (2 :: real))) ?G)))
            = Inr [[1 / 2, 0, 0], [0, 1, 0], [0, 0, 1]]"
    using upt
    by (simp add: transpose2_def column_def linalg_inv_def det3_def test_zero_pivot_def Let_def)
  have Gp: "map (\<lambda>r. map_option (vdot r)
                    (those (map2 c_sub [Some (\<i> * 6), Some (1 / 2), Some 9]
                       (map (\<lambda>r. Some (last r))
                          (transpose2 3 (map (\<lambda>X. tl (X (2 :: real))) ?G))))))
              [[1 / 2, 0, 0], [0, 1, 0], [0, 0, 1]]
            = [Some (\<i> * 3), Some (1 / 2), Some 9]"
    using upt by (simp add: transpose2_def column_def c_sub_def vdot_def)
  from calculate_solution_inv_outcome [OF F mz F4 b, of test_zero_pivot LinAlgError] Fi
  have 1: "snd (calculate_solution frozen_solve_ivp test_zero_pivot test_closure 1 4 1 1 (Some 2)
                  (1 / 2)) = Inl LinAlgError"
    by blast
  from calculate_solution_inv_outcome
    [OF G mz G4 b, of test_zero_pivot _ "[[1 / 2, 0, 0], [0, 1, 0], [0, 0, 1]]"] Gi
  have 2: "\<exists>fr. snd (calculate_solution test_solve_ivp test_zero_pivot test_closure 1 4 1 1 (Some 2)
                       (1 / 2)) = Inr fr
             \<and> cs_pars fr = [Some (\<i> * 3), Some (1 / 2), Some 9]"
    unfolding Gp by blast
  from 1 2 show ?thesis
    by (rule conjI)
qed

text \<open>
  Claim C9 as stated fails on a matrix that is ill-conditioned and not singular. With the
  columns \<open>[0, 1, 0]\<close> and \<open>[0, 1, 1 / 10 ^ 20]\<close> of two homogeneous solutions, \<^verbatim>\<open>pars\<close>
  is returned with entries of size \<open>10 ^ 20\<close> and nothing is raised; and the test run with
  \<open>max_z = 1 / 10 ^ 20\<close>, whose matrix has the diagonal \<open>1 / 10 ^ 20, 1, 1\<close>, returns.
\<close>

theorem boundary_pars_ill_conditioned:
  "boundary_pars test_zero_pivot [[1, 0, 0, 0], [0, 1, 1, 0], [0, 0, 1 / 10 ^ 20, 0]]
     [Some 1, Some 1, Some 1]
     = Inr [Some 1, Some (1 - 10 ^ 20), Some (10 ^ 20)]
   \<and> \<not> isl (snd (calculate_solution test_solve_ivp test_zero_pivot test_closure 1 4 1 1
                    (Some (1 / 10 ^ 20)) (1 / 2)))"
  by (simp add: run_defs)

section \<open>The placeholder solution\<close>

text \<open>
  A function that is continuous on an interval and has a derivative that is not positive
  inside it does not increase, by the mean value theorem.
\<close>

lemma mvt_nonincreasing:
  fixes f :: "real \<Rightarrow> real"
  assumes "a \<le> b" and "continuous_on {a..b} f"
    and "\<And>x. a < x \<Longrightarrow> x < b \<Longrightarrow> \<exists>l. (f has_real_derivative l) (at x) \<and> l \<le> 0"
  shows "f b \<le> f a"
proof (cases "a = b")
  case True
  then show ?thesis by simp
next
  case False
  with assms(1) have ab: "a < b" by simp
  have "f differentiable (at x)" if "a < x" "x < b" for x
    using assms(3) [OF that] by (auto simp add: real_differentiable_def)
  with ab assms(2) obtain l z where z: "a < z" "z < b" "DERIV f z :> l" "f b - f a = (b - a) * l"
    using MVT [of a b f] by blast
  from assms(3) [OF z(1,2)] obtain l' where "DERIV f z :> l'" "l' \<le> 0" by blast
  with z(3) have "l \<le> 0" using DERIV_unique by blast
  then have "(b - a) * l \<le> 0" using ab by (simp add: mult_le_0_iff)
  with z(4) show ?thesis by simp
qed

text \<open>The derivative of the squared modulus of a complex function of a real variable.\<close>

lemma cmod_square_derivative:
  fixes x :: "real \<Rightarrow> complex"
  assumes "(x has_vector_derivative d) (at t)"
  shows "((\<lambda>s. (cmod (x s))\<^sup>2) has_real_derivative 2 * Re (cnj (x t) * d)) (at t)"
proof -
  have re: "((\<lambda>s. Re (x s)) has_real_derivative Re d) (at t)"
    using bounded_linear.has_vector_derivative [OF bounded_linear_Re assms]
    by (simp add: has_real_derivative_iff_has_vector_derivative)
  have im: "((\<lambda>s. Im (x s)) has_real_derivative Im d) (at t)"
    using bounded_linear.has_vector_derivative [OF bounded_linear_Im assms]
    by (simp add: has_real_derivative_iff_has_vector_derivative)
  have "((\<lambda>s. (Re (x s))\<^sup>2 + (Im (x s))\<^sup>2) has_real_derivative
          2 * Re (x t) * Re d + 2 * Im (x t) * Im d) (at t)"
    by (auto intro!: derivative_eq_intros assms)
  moreover have "2 * Re (x t) * Re d + 2 * Im (x t) * Im d = 2 * Re (cnj (x t) * d)"
    by simp
  ultimately show ?thesis by (simp add: cmod_power2)
qed


text \<open>
  A linear system of four equations with bounded coefficients has only the zero solution
  from the zero state: the sum \<open>g\<close> of the squared moduli has \<open>g' \<le> 8 M g\<close>, so
  \<open>g(s) exp(- 8 M s)\<close> does not increase from its value 0 at \<open>s = 0\<close>.
\<close>

lemma linear_ivp_zero:
  fixes x :: "nat \<Rightarrow> real \<Rightarrow> complex" and a :: "real \<Rightarrow> nat \<Rightarrow> nat \<Rightarrow> complex"
  assumes cont: "\<And>i. i < 4 \<Longrightarrow> continuous_on {0..T} (x i)"
    and init: "\<And>i. i < 4 \<Longrightarrow> x i 0 = 0"
    and deriv: "\<And>s i. 0 < s \<Longrightarrow> s < T \<Longrightarrow> i < 4 \<Longrightarrow>
        (x i has_vector_derivative (\<Sum>j<4. a s i j * x j s)) (at s)"
    and bound: "\<And>s i j. 0 < s \<Longrightarrow> s < T \<Longrightarrow> i < 4 \<Longrightarrow> j < 4 \<Longrightarrow> cmod (a s i j) \<le> M"
    and t: "0 \<le> t" "t \<le> T" and i: "i < 4"
  shows "x i t = 0"
proof (cases "t = 0")
  case True
  then show ?thesis using init [OF i] by simp
next
  case False
  with t have tpos: "0 < t" by simp
  define g where "g s = (\<Sum>k<4. (cmod (x k s))\<^sup>2)" for s
  define C where "C = 8 * M"
  define h where "h s = g s * exp (- C * s)" for s
  have g_nonneg: "0 \<le> g s" for s
    by (simp add: g_def sum_nonneg)
  have g0: "g 0 = 0"
    by (simp add: g_def init)
  have cont_h: "continuous_on {0..t} h"
  proof -
    have "continuous_on {0..T} h"
      unfolding h_def g_def by (intro continuous_intros cont) simp_all
    then show ?thesis
      by (rule continuous_on_subset) (simp add: t(2))
  qed
  have step: "\<exists>l. (h has_real_derivative l) (at s) \<and> l \<le> 0" if s: "0 < s" "s < t" for s
  proof -
    have sT: "s < T" using s(2) t(2) by simp
    define d where "d k = (\<Sum>j<4. a s k j * x j s)" for k
    define g' where "g' = (\<Sum>k<4. 2 * Re (cnj (x k s) * d k))"
    have M0: "0 \<le> M"
      using bound [OF s(1) sT, of 0 0] norm_ge_zero [of "a s 0 0"] by linarith
    have dg: "(g has_real_derivative g') (at s)"
      unfolding g_def g'_def
    proof (rule DERIV_sum)
      fix k :: nat
      assume "k \<in> {..<4}"
      then have k: "k < 4" by simp
      show "((\<lambda>s. (cmod (x k s))\<^sup>2) has_real_derivative 2 * Re (cnj (x k s) * d k)) (at s)"
        unfolding d_def by (rule cmod_square_derivative) (rule deriv [OF s(1) sT k])
    qed
    have dk: "cmod (d k) \<le> (\<Sum>j<4. M * cmod (x j s))" if "k < 4" for k
    proof -
      have "cmod (d k) \<le> (\<Sum>j<4. cmod (a s k j * x j s))"
        unfolding d_def by (rule norm_sum)
      also have "\<dots> \<le> (\<Sum>j<4. M * cmod (x j s))"
        by (rule sum_mono) (simp add: norm_mult mult_right_mono bound [OF s(1) sT that])
      finally show ?thesis .
    qed
    have bd: "2 * Re (cnj (x k s) * d k) \<le> M * (4 * (cmod (x k s))\<^sup>2 + g s)" if "k < 4" for k
    proof -
      have "Re (cnj (x k s) * d k) \<le> cmod (cnj (x k s) * d k)"
        by (rule complex_Re_le_cmod)
      also have "\<dots> = cmod (x k s) * cmod (d k)"
        by (simp add: norm_mult)
      also have "\<dots> \<le> cmod (x k s) * (\<Sum>j<4. M * cmod (x j s))"
        by (rule mult_left_mono [OF dk [OF that]]) simp
      finally have le: "Re (cnj (x k s) * d k) \<le> cmod (x k s) * (\<Sum>j<4. M * cmod (x j s))" .
      have "(\<Sum>j<4. M * (2 * cmod (x k s) * cmod (x j s)))
            = 2 * (cmod (x k s) * (\<Sum>j<4. M * cmod (x j s)))"
        by (simp add: sum_distrib_left algebra_simps)
      with le have "2 * Re (cnj (x k s) * d k) \<le> (\<Sum>j<4. M * (2 * cmod (x k s) * cmod (x j s)))"
        by linarith
      also have "\<dots> \<le> (\<Sum>j<4. M * ((cmod (x k s))\<^sup>2 + (cmod (x j s))\<^sup>2))"
      proof (rule sum_mono)
        fix j
        have "0 \<le> (cmod (x k s) - cmod (x j s))\<^sup>2" by simp
        then have "2 * cmod (x k s) * cmod (x j s) \<le> (cmod (x k s))\<^sup>2 + (cmod (x j s))\<^sup>2"
          by (simp add: power2_diff)
        then show "M * (2 * cmod (x k s) * cmod (x j s)) \<le> M * ((cmod (x k s))\<^sup>2 + (cmod (x j s))\<^sup>2)"
          using M0 by (rule mult_left_mono)
      qed
      also have "\<dots> = M * (4 * (cmod (x k s))\<^sup>2 + g s)"
        by (simp add: g_def sum.distrib sum_distrib_left algebra_simps)
      finally show ?thesis .
    qed
    have "g' \<le> (\<Sum>k<4. M * (4 * (cmod (x k s))\<^sup>2 + g s))"
      unfolding g'_def by (rule sum_mono) (rule bd, simp)
    also have "\<dots> = C * g s"
      by (simp add: C_def g_def sum.distrib sum_distrib_left algebra_simps)
    finally have g'_le: "g' \<le> C * g s" .
    have "(h has_real_derivative g' * exp (- C * s) + g s * (exp (- C * s) * (- C))) (at s)"
      unfolding h_def by (auto intro!: derivative_eq_intros dg)
    moreover have "g' * exp (- C * s) + g s * (exp (- C * s) * (- C)) = (g' - C * g s) * exp (- C * s)"
      by (simp add: algebra_simps)
    moreover have "(g' - C * g s) * exp (- C * s) \<le> 0"
      using g'_le by (simp add: mult_le_0_iff)
    ultimately show ?thesis by auto
  qed
  have "h t \<le> h 0"
    using t(1) cont_h step by (rule mvt_nonincreasing)
  then have "h t \<le> 0"
    by (simp add: h_def g0)
  moreover have "0 \<le> h t"
    by (simp add: h_def g_nonneg)
  ultimately have "h t = 0" by simp
  then have "g t = 0" by (simp add: h_def)
  then have "(cmod (x i t))\<^sup>2 = 0"
    using i by (simp add: g_def sum_nonneg_eq_0_iff)
  then show ?thesis by simp
qed

lemma solve_system_fourth:
  assumes "solve_system solve_ivp cl eta_0 eta_H Kappa max_z = (calls, Inr Results)"
  shows "calls ! 3 = \<lparr>ivp_fun = Rhs_func, ivp_t_span = (0, max_z), ivp_y0 = [0, 0, 0, 0],
                       ivp_args = (eta_H, eta_0, Kappa)\<rparr>"
    and "length calls = 4" and "length Results = 4"
  using assms by (auto simp add: solve_system_unfold Let_def split: sum.splits)

lemma four_entries:
  assumes "length r = 4"
  shows "\<exists>w x y z. r = [w, x, y, z]"
  using assms by (auto simp add: length_Suc_conv eval_nat_numeral)

lemma vdot_four:
  assumes "length r = 4" and "length x = 4"
  shows "vdot r x = (\<Sum>j<4. r ! j * x ! j)"
proof -
  from four_entries [OF assms(1)] four_entries [OF assms(2)]
  obtain r0 r1 r2 r3 x0 x1 x2 x3 where "r = [r0, r1, r2, r3]" "x = [x0, x1, x2, x3]"
    by blast
  then show ?thesis
    by (simp add: vdot_def eval_nat_numeral)
qed

lemma func_Vec:
  assumes "func cl eta (Vec x) eta_H eta_0 Kappa = Inr (Vec d)" and "length x = 4"
  shows "\<exists>A. P cl eta eta_H eta_0 Kappa = Inr A
           \<and> (\<forall>i<4. d ! i = (\<Sum>j<4. A ! i ! j * x ! j))"
proof -
  from assms(1) obtain A where A: "P cl eta eta_H eta_0 Kappa = Inr A"
    and d: "dot A (Vec x) = Inr (Vec d)"
    by (auto simp add: func_def split: sum.splits)
  note rows = P_rows [OF A]
  from d have dd: "d = map (\<lambda>r. vdot r x) A"
    by (auto split: if_splits)
  have "d ! i = (\<Sum>j<4. A ! i ! j * x ! j)" if "i < 4" for i
  proof -
    have "length (A ! i) = 4"
      using rows that by (simp add: list_all_length)
    then have "vdot (A ! i) x = (\<Sum>j<4. A ! i ! j * x ! j)"
      using assms(2) by (rule vdot_four)
    then show ?thesis
      using rows(1) that by (simp add: dd)
  qed
  with A show ?thesis by blast
qed

lemma zero_state:
  assumes "length r = 4" and "\<And>i. i < 4 \<Longrightarrow> r ! i = (0 :: complex)"
  shows "r = [0, 0, 0, 0]"
proof -
  from four_entries [OF assms(1)] obtain w x y z where r: "r = [w, x, y, z]" by blast
  from assms(2) [of 0] assms(2) [of 1] assms(2) [of 2] assms(2) [of 3]
  show ?thesis by (simp add: r)
qed

text \<open>
  Claim C7. The fourth problem that \<^verbatim>\<open>_solve_system\<close> submits is the zero initial
  state under \<^verbatim>\<open>_func\<close>. When the entries of \<^verbatim>\<open>_P\<close> are bounded inside the span
  (by any \<open>M\<close>), a fourth result that solves this problem is the zero vector at every
  height of the span from 0 to \<^verbatim>\<open>max_z\<close>.
\<close>

theorem placeholder_solution_zero:
  assumes sys: "solve_system solve_ivp cl eta_0 eta_H Kappa max_z = (calls, Inr Results)"
    and sol: "solves cl (calls ! 3) (Results ! 3)"
    and bound: "\<And>s A i j. 0 < s \<Longrightarrow> s < max_z \<Longrightarrow> P cl s eta_H eta_0 Kappa = Inr A \<Longrightarrow>
                  i < 4 \<Longrightarrow> j < 4 \<Longrightarrow> cmod (A ! i ! j) \<le> M"
    and eta: "0 \<le> eta" "eta \<le> max_z"
  shows "ivp_fun (calls ! 3) = Rhs_func \<and> ivp_y0 (calls ! 3) = [0, 0, 0, 0]
         \<and> (Results ! 3) eta = [0, 0, 0, 0]"
proof -
  define X where "X = Results ! 3"
  note c3 = solve_system_fourth(1) [OF sys]
  from sol have init: "X 0 = [0, 0, 0, 0]"
    and len: "\<And>s. 0 \<le> s \<Longrightarrow> s \<le> max_z \<Longrightarrow> length (X s) = 4"
    and cont: "\<And>i. i < 4 \<Longrightarrow> continuous_on {0..max_z} (\<lambda>s. X s ! i)"
    and ode: "\<And>s. 0 < s \<Longrightarrow> s < max_z \<Longrightarrow>
               \<exists>d. func cl s (Vec (X s)) eta_H eta_0 Kappa = Inr (Vec d)
                   \<and> (\<forall>i<4. ((\<lambda>t. X t ! i) has_vector_derivative d ! i) (at s))"
    unfolding solves_def c3 X_def by simp_all
  define x where "x i s = X s ! i" for i s
  define a where "a s i j = (case P cl s eta_H eta_0 Kappa of Inl e \<Rightarrow> 0 | Inr A \<Rightarrow> A ! i ! j)"
    for s i j
  have inside: "\<exists>A. P cl s eta_H eta_0 Kappa = Inr A
                  \<and> (\<forall>i<4. (x i has_vector_derivative (\<Sum>j<4. A ! i ! j * x j s)) (at s))"
    if s: "0 < s" "s < max_z" for s
  proof -
    from ode [OF s] obtain d where f: "func cl s (Vec (X s)) eta_H eta_0 Kappa = Inr (Vec d)"
      and d: "\<forall>i<4. ((\<lambda>t. X t ! i) has_vector_derivative d ! i) (at s)"
      by blast
    have "length (X s) = 4" using s by (intro len) simp_all
    from func_Vec [OF f this] obtain A where A: "P cl s eta_H eta_0 Kappa = Inr A"
      and di: "\<forall>i<4. d ! i = (\<Sum>j<4. A ! i ! j * X s ! j)"
      by blast
    have "(x i has_vector_derivative (\<Sum>j<4. A ! i ! j * x j s)) (at s)" if "i < 4" for i
      using d di that unfolding x_def by auto
    with A show ?thesis by blast
  qed
  have "x i eta = 0" if i: "i < 4" for i
  proof (rule linear_ivp_zero [where x = x and a = a and T = max_z and M = M])
    show "continuous_on {0..max_z} (x k)" if "k < 4" for k
      unfolding x_def using cont [OF that] .
    show "x k 0 = 0" if "k < 4" for k
      using that by (auto simp add: x_def init less_Suc_eq eval_nat_numeral)
    show "(x k has_vector_derivative (\<Sum>j<4. a s k j * x j s)) (at s)"
      if "0 < s" "s < max_z" "k < 4" for s k
    proof -
      from inside [OF that(1,2)] obtain A where A: "P cl s eta_H eta_0 Kappa = Inr A"
        and "\<forall>i<4. (x i has_vector_derivative (\<Sum>j<4. A ! i ! j * x j s)) (at s)"
        by blast
      then show ?thesis using that(3) by (simp add: a_def A)
    qed
    show "cmod (a s k j) \<le> M" if "0 < s" "s < max_z" "k < 4" "j < 4" for s k j
    proof -
      from inside [OF that(1,2)] obtain A where A: "P cl s eta_H eta_0 Kappa = Inr A"
        by blast
      from bound [OF that(1,2) A that(3,4)] show ?thesis by (simp add: a_def A)
    qed
    show "0 \<le> eta" "eta \<le> max_z" by (rule eta)+
    show "i < 4" by (rule i)
  qed
  then have "X eta = [0, 0, 0, 0]"
    unfolding x_def using len [OF eta] by (intro zero_state) simp_all
  then show ?thesis
    by (simp add: c3 X_def)
qed

lemma test_P_bound:
  assumes "0 < s" and "s < 2" and "P test_closure s 4 1 (1 / 2) = Inr A" and "i < 4" and "j < 4"
  shows "cmod (A ! i ! j) \<le> 8"
proof -
  define m where "m = (s + 1) / (1 / 2)"
  define tp where "tp = 1 - s / 4"
  have tp: "1 / 2 < tp" "tp < 1"
    using assms(1,2) by (simp_all add: tp_def)
  have m: "0 < m" "m < 6"
    using assms(1,2) by (simp_all add: m_def)
  have A: "A = [[0, - \<i>, complex_of_real (2 / (2 * tp)), 0],
                [- \<i>, 0, 0, 0],
                [\<i> * complex_of_real m + complex_of_real (4 * tp / 2), complex_of_real 2, 0, \<i>],
                [0, - \<i> * complex_of_real m, \<i>, 0]]"
    using assms(3) [symmetric] tp
    by (simp add: P_def test_closure_def Let_def m_def tp_def split: if_splits)
  have e1: "cmod (complex_of_real (2 / (2 * tp))) \<le> 8"
  proof -
    have "1 / tp < 2" using tp by (simp add: field_simps)
    then show ?thesis using tp by (simp add: norm_divide)
  qed
  have e2: "cmod (\<i> * complex_of_real m + complex_of_real (4 * tp / 2)) \<le> 8"
  proof -
    have "cmod (\<i> * complex_of_real m + complex_of_real (4 * tp / 2))
          \<le> cmod (\<i> * complex_of_real m) + cmod (complex_of_real (4 * tp / 2))"
      by (rule norm_triangle_ineq)
    also have "\<dots> = m + 2 * tp"
      using m tp by (simp add: norm_mult)
    finally show ?thesis using m tp by simp
  qed
  have e3: "cmod (- \<i> * complex_of_real m) \<le> 8"
    using m by (simp add: norm_mult)
  from assms(4,5) e1 e2 e3 show ?thesis
    by (auto simp add: A less_Suc_eq eval_nat_numeral)
qed

theorem placeholder_solution_zero_witness:
  "\<exists>calls Results.
     solve_system test_solve_ivp test_closure 1 4 (1 / 2) 2 = (calls, Inr Results)
     \<and> solves test_closure (calls ! 3) (Results ! 3)
     \<and> (0 :: real) \<le> 1 \<and> (1 :: real) \<le> 2
     \<and> ivp_fun (calls ! 3) = Rhs_func \<and> ivp_y0 (calls ! 3) = [0, 0, 0, 0]
     \<and> (Results ! 3) 1 = [0, 0, 0, 0]"
proof -
  obtain calls Results
    where sys: "solve_system test_solve_ivp test_closure 1 4 (1 / 2) 2 = (calls, Inr Results)"
    by (cases "solve_system test_solve_ivp test_closure 1 4 (1 / 2) 2")
       (auto simp add: solve_system_unfold test_solve_ivp_def Let_def)
  have c3: "calls ! 3 = \<lparr>ivp_fun = Rhs_func, ivp_t_span = (0, 2), ivp_y0 = [0, 0, 0, 0],
                          ivp_args = (4, 1, 1 / 2)\<rparr>"
    by (rule solve_system_fourth [OF sys])
  have r3: "Results ! 3 = (\<lambda>eta. [0, 0, 0, 0])"
    using sys [symmetric]
    by (simp add: solve_system_unfold test_solve_ivp_def vec_add_def Let_def)
  have zero: "(\<lambda>t :: real. [0, 0, 0, 0 :: complex] ! i) = (\<lambda>t. 0)" if "i < 4" for i
    using that by (auto simp add: less_Suc_eq eval_nat_numeral)
  have field: "func test_closure s (Vec [0, 0, 0, 0]) 4 1 (1 / 2) = Inr (Vec [0, 0, 0, 0])"
    if "0 < s" "s < 2" for s
    using that by (simp add: func_def P_def test_closure_def Let_def vdot_def)
  have sol: "solves test_closure (calls ! 3) (Results ! 3)"
    unfolding solves_def c3 r3
  proof (intro conjI allI impI)
    fix s :: real
    assume "fst (ivp_t_span \<lparr>ivp_fun = Rhs_func, ivp_t_span = (0, 2), ivp_y0 = [0, 0, 0, 0],
                               ivp_args = (4, 1, 1 / 2)\<rparr>) < s
          \<and> s < snd (ivp_t_span \<lparr>ivp_fun = Rhs_func, ivp_t_span = (0, 2), ivp_y0 = [0, 0, 0, 0],
                                  ivp_args = (4, 1, 1 / 2)\<rparr>)"
    then have s: "0 < s" "s < 2" by simp_all
    have "\<forall>i<4. ((\<lambda>t. [0, 0, 0, 0 :: complex] ! i) has_vector_derivative [0, 0, 0, 0] ! i) (at s)"
      by (auto simp add: less_Suc_eq eval_nat_numeral)
    with field [OF s]
    show "\<exists>d. rhs_eval (ivp_fun \<lparr>ivp_fun = Rhs_func, ivp_t_span = (0, 2), ivp_y0 = [0, 0, 0, 0],
                                    ivp_args = (4, 1, 1 / 2)\<rparr>) test_closure s (Vec [0, 0, 0, 0])
                 (fst (ivp_args \<lparr>ivp_fun = Rhs_func, ivp_t_span = (0, 2), ivp_y0 = [0, 0, 0, 0],
                                  ivp_args = (4, 1, 1 / 2)\<rparr>))
                 (fst (snd (ivp_args \<lparr>ivp_fun = Rhs_func, ivp_t_span = (0, 2),
                                       ivp_y0 = [0, 0, 0, 0], ivp_args = (4, 1, 1 / 2)\<rparr>)))
                 (snd (snd (ivp_args \<lparr>ivp_fun = Rhs_func, ivp_t_span = (0, 2),
                                       ivp_y0 = [0, 0, 0, 0], ivp_args = (4, 1, 1 / 2)\<rparr>)))
               = Inr (Vec d)
              \<and> (\<forall>i<4. ((\<lambda>t. [0, 0, 0, 0] ! i) has_vector_derivative d ! i) (at s))"
      by auto
  qed (simp_all add: zero)
  have le: "(0 :: real) \<le> 1" "(1 :: real) \<le> 2"
    by simp_all
  from placeholder_solution_zero [OF sys sol test_P_bound le] sys sol
  show ?thesis
    by auto
qed

end
